theory Spec2Isabelle
  imports Complex_Main "HOL-Library.Sublist"
begin


section \<open>Strings and paths, as the Python standard library computes them\<close>

type_synonym path = string

text \<open>\<^verbatim>\<open>str.startswith\<close>.\<close>

definition startswith :: "string \<Rightarrow> string \<Rightarrow> bool" where
  "startswith s p = prefix p s"

definition endswith :: "string \<Rightarrow> string \<Rightarrow> bool" where
  "endswith s p = suffix p s"

text \<open>\<^verbatim>\<open>str(n)\<close> for an integer: decimal digits, a minus sign when negative.\<close>

definition digit_char :: "nat \<Rightarrow> char" where
  "digit_char d = ''0123456789'' ! (d mod 10)"

function str_nat :: "nat \<Rightarrow> string" where
  "str_nat n = (if n < 10 then [digit_char n] else str_nat (n div 10) @ [digit_char (n mod 10)])"
  by pat_completeness auto
termination
  by (relation "measure id") auto

declare str_nat.simps [simp del]

definition str_int :: "int \<Rightarrow> string" where
  "str_int i = (if i < 0 then CHR ''-'' # str_nat (nat (- i)) else str_nat (nat i))"

text \<open>\<^verbatim>\<open>str.zfill\<close>: pad with zeros on the left, after a leading sign.\<close>

definition zfill :: "nat \<Rightarrow> string \<Rightarrow> string" where
  "zfill width s =
     (if length s \<ge> width then s
      else case s of
        c # rest \<Rightarrow>
          (if c = CHR ''+'' \<or> c = CHR ''-''
           then c # replicate (width - length s) CHR ''0'' @ rest
           else replicate (width - length s) CHR ''0'' @ s)
      | [] \<Rightarrow> replicate width CHR ''0'')"

text \<open>\<^verbatim>\<open>str.lower\<close> and \<^verbatim>\<open>str.strip\<close>, on ASCII.\<close>

definition lower_char :: "char \<Rightarrow> char" where
  "lower_char c =
     (let n = (of_char c :: nat) in if 65 \<le> n \<and> n \<le> 90 then char_of (n + 32) else c)"

definition lower :: "string \<Rightarrow> string" where
  "lower s = map lower_char s"

definition is_space :: "char \<Rightarrow> bool" where
  "is_space c = (let n = (of_char c :: nat) in n = 32 \<or> (9 \<le> n \<and> n \<le> 13))"

definition strip :: "string \<Rightarrow> string" where
  "strip s = rev (dropWhile is_space (rev (dropWhile is_space s)))"

text \<open>\<^verbatim>\<open>str.replace(old, new)\<close>: every occurrence, left to right, without overlap.\<close>

fun replace :: "string \<Rightarrow> string \<Rightarrow> string \<Rightarrow> string" where
  "replace old new [] = (if old = [] then new else [])"
| "replace old new (c # cs) =
     (if old = [] then new @ c # replace old new cs
      else if prefix old (c # cs) then new @ replace old new (drop (length old) (c # cs))
      else c # replace old new cs)"

text \<open>\<^verbatim>\<open>str.split('/')\<close>.\<close>

fun split_sep :: "string \<Rightarrow> string list" where
  "split_sep [] = [[]]"
| "split_sep (c # cs) =
     (if c = CHR ''/'' then [] # split_sep cs
      else case split_sep cs of
             w # ws \<Rightarrow> (c # w) # ws
           | [] \<Rightarrow> [[c]])"

fun join_sep :: "string list \<Rightarrow> string" where
  "join_sep [] = []"
| "join_sep [x] = x"
| "join_sep (x # y # ys) = x @ CHR ''/'' # join_sep (y # ys)"

text \<open>\<^verbatim>\<open>posixpath.join(a, b)\<close>, \<^verbatim>\<open>dirname\<close>, \<^verbatim>\<open>basename\<close>, \<^verbatim>\<open>isabs\<close>.\<close>

definition isabs :: "path \<Rightarrow> bool" where
  "isabs p = startswith p ''/''"

definition join :: "path \<Rightarrow> path \<Rightarrow> path" where
  "join a b =
     (if startswith b ''/'' then b
      else if a = [] \<or> endswith a ''/'' then a @ b
      else a @ ''/'' @ b)"

definition basename :: "path \<Rightarrow> string" where
  "basename p = rev (takeWhile (\<lambda>c. c \<noteq> CHR ''/'') (rev p))"

definition dirname :: "path \<Rightarrow> path" where
  "dirname p =
     (let head = rev (dropWhile (\<lambda>c. c \<noteq> CHR ''/'') (rev p))
      in if head \<noteq> [] \<and> head \<noteq> replicate (length head) CHR ''/''
         then rev (dropWhile (\<lambda>c. c = CHR ''/'') (rev head))
         else head)"

text \<open>\<^verbatim>\<open>posixpath.normpath\<close>: the loop over the components, then the leading slashes.\<close>

fun norm_comps :: "bool \<Rightarrow> string list \<Rightarrow> string list \<Rightarrow> string list" where
  "norm_comps rooted acc [] = acc"
| "norm_comps rooted acc (x # xs) =
     (if x = [] \<or> x = ''.'' then norm_comps rooted acc xs
      else if x \<noteq> ''..'' \<or> (\<not> rooted \<and> acc = []) \<or> (acc \<noteq> [] \<and> last acc = ''..'')
      then norm_comps rooted (acc @ [x]) xs
      else if acc \<noteq> [] then norm_comps rooted (butlast acc) xs
      else norm_comps rooted acc xs)"

definition normpath :: "path \<Rightarrow> path" where
  "normpath p =
     (if p = [] then ''.''
      else
        let initial_slashes =
              (if startswith p ''/'' then
                 (if startswith p ''//'' \<and> \<not> startswith p ''///'' then 2 else 1)
               else (0::nat));
            parts = norm_comps (initial_slashes \<noteq> 0) [] (split_sep p);
            q = replicate initial_slashes CHR ''/'' @ join_sep parts
        in if q = [] then ''.'' else q)"

text \<open>\<^verbatim>\<open>posixpath.abspath\<close> and \<^verbatim>\<open>posixpath.relpath\<close>, with the working directory given.\<close>

definition abspath :: "path \<Rightarrow> path \<Rightarrow> path" where
  "abspath cwd p = normpath (if isabs p then p else join cwd p)"

fun common_len :: "string list \<Rightarrow> string list \<Rightarrow> nat" where
  "common_len (x # xs) (y # ys) = (if x = y then Suc (common_len xs ys) else 0)"
| "common_len _ _ = 0"

definition relpath :: "path \<Rightarrow> path \<Rightarrow> path \<Rightarrow> path" where
  "relpath cwd p start =
     (let start_list = filter (\<lambda>x. x \<noteq> []) (split_sep (abspath cwd start));
          path_list = filter (\<lambda>x. x \<noteq> []) (split_sep (abspath cwd p));
          i = common_len start_list path_list;
          rel_list = replicate (length start_list - i) ''..'' @ drop i path_list
      in if rel_list = [] then ''.'' else join_sep rel_list)"


text \<open>
  \<^verbatim>\<open>fnmatch\<close> for the patterns this program uses: literal characters, \<^verbatim>\<open>*\<close>,
  \<^verbatim>\<open>?\<close> and a range class such as \<^verbatim>\<open>[0-9]\<close>.
\<close>

datatype pat = PLit char | PStar | PAny | PRange char char

fun parse_pat :: "string \<Rightarrow> pat list" where
  "parse_pat [] = []"
| "parse_pat (c # cs) =
     (if c = CHR ''*'' then PStar # parse_pat cs
      else if c = CHR ''?'' then PAny # parse_pat cs
      else if c = CHR ''['' then
        (case cs of
           a # d # b # e # rest \<Rightarrow>
             (if d = CHR ''-'' \<and> e = CHR '']'' then PRange a b # parse_pat rest
              else PLit c # parse_pat cs)
         | _ \<Rightarrow> PLit c # parse_pat cs)
      else PLit c # parse_pat cs)"

fun pmatch :: "pat list \<Rightarrow> string \<Rightarrow> bool" where
  "pmatch [] s = (s = [])"
| "pmatch (PStar # ps) [] = pmatch ps []"
| "pmatch (PStar # ps) (c # cs) = (pmatch ps (c # cs) \<or> pmatch (PStar # ps) cs)"
| "pmatch (PLit x # ps) [] = False"
| "pmatch (PLit x # ps) (c # cs) = (x = c \<and> pmatch ps cs)"
| "pmatch (PAny # ps) [] = False"
| "pmatch (PAny # ps) (c # cs) = pmatch ps cs"
| "pmatch (PRange a b # ps) [] = False"
| "pmatch (PRange a b # ps) (c # cs) =
     ((of_char a :: nat) \<le> of_char c \<and> (of_char c :: nat) \<le> of_char b \<and> pmatch ps cs)"

definition fnmatch :: "string \<Rightarrow> string \<Rightarrow> bool" where
  "fnmatch name pattern = pmatch (parse_pat pattern) name"

section \<open>Values, errors and the world the script runs in\<close>

text \<open>
  A scalar of the specification file or of a namelist. A Python float is represented by the
  rational number it denotes; what floating-point arithmetic rounds to is left to the
  environment (\<open>env\<close> below).
\<close>

datatype scalar = VInt int | VFloat rat | VStr string | VBool bool

datatype yaml = YNull | YScalar scalar | YLiteral string | YSeq "yaml list" | YMap "(string \<times> yaml) list"

type_synonym nml = "(string \<times> (string \<times> scalar) list) list"

text \<open>
  The exceptions the script can end with. \<open>UnboundLocalError\<close> is Python's subclass of
  \<open>NameError\<close> for a local variable read before assignment; \<open>LibraryError\<close> is an
  exception raised inside a collaborator (git, f90nml, yaml); \<open>Unmodelled\<close> marks an input
  whose Python behaviour this development does not describe.
\<close>

datatype error =
    KeyError string
  | TypeError string
  | AttributeError string
  | UnboundLocalError string
  | FileNotFoundError path
  | FileExistsError path
  | IsADirectoryError path
  | NotADirectoryError path
  | OSError path
  | CalledProcessError string
  | LibraryError string
  | Unmodelled string

datatype node = Dir | File "string list" | Link path

record repo =
  head_files :: "(path \<times> string list) list"
  remotes :: "(string \<times> string) list"
  branches :: "string list"

text \<open>
  The world: the working directory, the file system as a list of entries (a text file holds
  the strings written to it, one per line, each with its line end), what has been printed,
  the shell commands handed to \<^verbatim>\<open>subprocess.run\<close>, and the state of the
  version-control collaborator.

  An entry is kept under the components of its absolute, normalised path. A directory exists
  when it has an entry of its own or when some entry lies below it. A symbolic link is
  followed where the operating system follows it in the last component of a directory path;
  a path that runs through a linked directory is an entry of its own, and a text file
  opened through a link is outside the model.
\<close>

type_synonym fskey = "string list"

record world =
  cwd :: path
  fs :: "(fskey \<times> node) list"
  stdout :: "string list"
  cmds :: "string list"
  repos :: "(fskey \<times> repo) list"

type_synonym 'a prog = "world \<Rightarrow> (error + 'a) \<times> world"

definition ret :: "'a \<Rightarrow> 'a prog" where
  "ret x = (\<lambda>w. (Inr x, w))"

definition raise :: "error \<Rightarrow> 'a prog" where
  "raise e = (\<lambda>w. (Inl e, w))"

definition andthen :: "'a prog \<Rightarrow> ('a \<Rightarrow> 'b prog) \<Rightarrow> 'b prog" where
  "andthen m f = (\<lambda>w. case m w of (Inl e, w') \<Rightarrow> (Inl e, w') | (Inr x, w') \<Rightarrow> f x w')"

definition lift :: "error + 'a \<Rightarrow> 'a prog" where
  "lift r = (\<lambda>w. (r, w))"

definition print :: "string \<Rightarrow> unit prog" where
  "print s = (\<lambda>w. (Inr (), w\<lparr>stdout := stdout w @ [s]\<rparr>))"

definition getcwd :: "path prog" where
  "getcwd = (\<lambda>w. (Inr (cwd w), w))"

subsection \<open>The file system\<close>

definition comps :: "path \<Rightarrow> fskey" where
  "comps p = norm_comps True [] (split_sep p)"

definition key :: "world \<Rightarrow> path \<Rightarrow> fskey" where
  "key w p = comps (if isabs p then p else join (cwd w) p)"

definition render :: "fskey \<Rightarrow> path" where
  "render k = CHR ''/'' # join_sep k"

definition node_at :: "(fskey \<times> node) list \<Rightarrow> fskey \<Rightarrow> node option" where
  "node_at es k =
     (case map_of es k of
        Some n \<Rightarrow> Some n
      | None \<Rightarrow> if k = [] \<or> list_ex (\<lambda>(q, n). strict_prefix k q) es then Some Dir else None)"

fun follow :: "nat \<Rightarrow> (fskey \<times> node) list \<Rightarrow> fskey \<Rightarrow> fskey option" where
  "follow 0 es k = None"
| "follow (Suc n) es k =
     (case map_of es k of
        Some (Link t) \<Rightarrow> follow n es (comps (join (render (butlast k)) t))
      | _ \<Rightarrow> Some k)"

text \<open>At most 40 links are followed, as the kernel does; beyond that the path does not resolve.\<close>

definition resolve :: "(fskey \<times> node) list \<Rightarrow> fskey \<Rightarrow> fskey option" where
  "resolve es k = follow 40 es k"

definition dir_at :: "(fskey \<times> node) list \<Rightarrow> fskey \<Rightarrow> bool" where
  "dir_at es k = (case resolve es k of None \<Rightarrow> False | Some q \<Rightarrow> node_at es q = Some Dir)"

definition is_dir :: "world \<Rightarrow> path \<Rightarrow> bool" where
  "is_dir w p = dir_at (fs w) (key w p)"

text \<open>\<^verbatim>\<open>os.path.exists\<close>: false for a dangling link.\<close>

definition path_exists :: "world \<Rightarrow> path \<Rightarrow> bool" where
  "path_exists w p =
     (case resolve (fs w) (key w p) of None \<Rightarrow> False | Some q \<Rightarrow> node_at (fs w) q \<noteq> None)"

definition exists :: "path \<Rightarrow> bool prog" where
  "exists p = (\<lambda>w. (Inr (path_exists w p), w))"

text \<open>The entry stored for a path, if it has one of its own.\<close>

definition entry :: "world \<Rightarrow> path \<Rightarrow> node option" where
  "entry w p = map_of (fs w) (key w p)"

text \<open>A path has an entry of its own that is a directory, or a text file.\<close>

definition has_dir :: "fskey \<Rightarrow> world \<Rightarrow> bool" where
  "has_dir k w = (map_of (fs w) k = Some Dir)"

definition has_file :: "fskey \<Rightarrow> world \<Rightarrow> bool" where
  "has_file k w = (case map_of (fs w) k of Some (File ls) \<Rightarrow> True | _ \<Rightarrow> False)"

text \<open>\<^verbatim>\<open>os.path.realpath\<close>.\<close>

definition realpath :: "path \<Rightarrow> path prog" where
  "realpath p = (\<lambda>w.
     (Inr (render (case resolve (fs w) (key w p) of Some q \<Rightarrow> q | None \<Rightarrow> key w p)), w))"

text \<open>Reading all lines of a text file, and writing a text file (\<^verbatim>\<open>open(p, 'w')\<close>).\<close>

definition read_lines :: "path \<Rightarrow> string list prog" where
  "read_lines p = (\<lambda>w.
     case node_at (fs w) (key w p) of
       Some (File ls) \<Rightarrow> (Inr ls, w)
     | Some Dir \<Rightarrow> (Inl (IsADirectoryError p), w)
     | Some (Link t) \<Rightarrow> (Inl (Unmodelled p), w)
     | None \<Rightarrow> (Inl (FileNotFoundError p), w))"

definition put :: "fskey \<Rightarrow> node \<Rightarrow> (fskey \<times> node) list \<Rightarrow> (fskey \<times> node) list" where
  "put k n es = (k, n) # filter (\<lambda>(q, m). q \<noteq> k) es"

definition write_lines :: "path \<Rightarrow> string list \<Rightarrow> unit prog" where
  "write_lines p ls = (\<lambda>w.
     let k = key w p in
     case node_at (fs w) k of
       Some Dir \<Rightarrow> (Inl (IsADirectoryError p), w)
     | Some (Link t) \<Rightarrow> (Inl (Unmodelled p), w)
     | _ \<Rightarrow>
         if \<not> dir_at (fs w) (butlast k) then (Inl (FileNotFoundError p), w)
         else (Inr (), w\<lparr>fs := put k (File ls) (fs w)\<rparr>))"

text \<open>\<^verbatim>\<open>os.remove\<close>, \<^verbatim>\<open>os.rename\<close>, \<^verbatim>\<open>os.symlink\<close>, \<^verbatim>\<open>os.makedirs\<close>, \<^verbatim>\<open>shutil.rmtree\<close>, \<^verbatim>\<open>shutil.copy\<close>.\<close>

definition os_remove :: "path \<Rightarrow> unit prog" where
  "os_remove p = (\<lambda>w.
     let k = key w p in
     case node_at (fs w) k of
       None \<Rightarrow> (Inl (FileNotFoundError p), w)
     | Some Dir \<Rightarrow> (Inl (IsADirectoryError p), w)
     | Some _ \<Rightarrow> (Inr (), w\<lparr>fs := filter (\<lambda>(q, m). q \<noteq> k) (fs w)\<rparr>))"

definition move_tree :: "fskey \<Rightarrow> fskey \<Rightarrow> (fskey \<times> node) list \<Rightarrow> (fskey \<times> node) list" where
  "move_tree ks kd es =
     (kd, Dir) #
     map (\<lambda>(q, m). if strict_prefix ks q then (kd @ drop (length ks) q, m) else (q, m))
       (filter (\<lambda>(q, m). q \<noteq> ks \<and> q \<noteq> kd) es)"

definition os_rename :: "path \<Rightarrow> path \<Rightarrow> unit prog" where
  "os_rename src dst = (\<lambda>w.
     let ks = key w src; kd = key w dst in
     case node_at (fs w) ks of
       None \<Rightarrow> (Inl (FileNotFoundError src), w)
     | Some Dir \<Rightarrow>
         (if prefix ks kd then (Inl (OSError dst), w)
          else case node_at (fs w) kd of
            None \<Rightarrow>
              if dir_at (fs w) (butlast kd) then (Inr (), w\<lparr>fs := move_tree ks kd (fs w)\<rparr>)
              else (Inl (FileNotFoundError dst), w)
          | Some Dir \<Rightarrow>
              if list_ex (\<lambda>(q, m). strict_prefix kd q) (fs w) then (Inl (OSError dst), w)
              else (Inr (), w\<lparr>fs := move_tree ks kd (fs w)\<rparr>)
          | Some _ \<Rightarrow> (Inl (NotADirectoryError dst), w))
     | Some n \<Rightarrow>
         (if node_at (fs w) kd = Some Dir then (Inl (IsADirectoryError dst), w)
          else if \<not> dir_at (fs w) (butlast kd) then (Inl (FileNotFoundError dst), w)
          else (Inr (), w\<lparr>fs := put kd n (filter (\<lambda>(q, m). q \<noteq> ks) (fs w))\<rparr>)))"

definition os_symlink :: "path \<Rightarrow> path \<Rightarrow> unit prog" where
  "os_symlink target linkpath = (\<lambda>w.
     let k = key w linkpath in
     if node_at (fs w) k \<noteq> None then (Inl (FileExistsError linkpath), w)
     else if \<not> dir_at (fs w) (butlast k) then (Inl (FileNotFoundError linkpath), w)
     else (Inr (), w\<lparr>fs := put k (Link target) (fs w)\<rparr>))"

definition os_makedirs :: "path \<Rightarrow> unit prog" where
  "os_makedirs p = (\<lambda>w.
     let k = key w p in
     if node_at (fs w) k \<noteq> None then (Inl (FileExistsError p), w)
     else if list_ex (\<lambda>i. node_at (fs w) (take i k) \<noteq> None \<and> \<not> dir_at (fs w) (take i k))
               [0..<length k]
     then (Inl (NotADirectoryError p), w)
     else (Inr (), w\<lparr>fs := put k Dir (fs w)\<rparr>))"

definition rmtree :: "path \<Rightarrow> unit prog" where
  "rmtree p = (\<lambda>w.
     let k = key w p in
     case node_at (fs w) k of
       None \<Rightarrow> (Inl (FileNotFoundError p), w)
     | Some Dir \<Rightarrow>
         if k = [] then (Inl (OSError p), w)
         else (Inr (), w\<lparr>fs := filter (\<lambda>(q, m). \<not> prefix k q) (fs w)\<rparr>)
     | Some (File ls) \<Rightarrow> (Inl (NotADirectoryError p), w)
     | Some (Link t) \<Rightarrow> (Inl (OSError p), w))"

definition shutil_copy :: "path \<Rightarrow> path \<Rightarrow> unit prog" where
  "shutil_copy src dst =
     andthen (read_lines src) (\<lambda>ls. \<lambda>w.
       write_lines (if is_dir w dst then join dst (basename src) else dst) ls w)"

text \<open>
  \<^verbatim>\<open>glob.glob\<close> of a pattern whose directory part is taken literally: the entries of that
  directory whose name matches the last component.
\<close>

definition listdir :: "world \<Rightarrow> path \<Rightarrow> string list" where
  "listdir w d =
     (let k = key w d
      in remdups (map (\<lambda>(q, n). q ! length k) (filter (\<lambda>(q, n). strict_prefix k q) (fs w))))"

definition glob :: "world \<Rightarrow> string \<Rightarrow> path list" where
  "glob w pathname =
     (let d = dirname pathname; pattern = basename pathname
      in if \<not> is_dir w d then []
         else map (join d)
                (filter (\<lambda>name. fnmatch name pattern \<and> (startswith pattern ''.'' \<or> \<not> startswith name ''.''))
                   (listdir w d)))"

subsection \<open>Collaborators\<close>

text \<open>
  What the script calls but does not define is a parameter: floating-point arithmetic and
  \<^verbatim>\<open>numpy\<close>, the YAML and namelist libraries, GitPython (a repository is named by its
  working directory) and the shell that \<^verbatim>\<open>subprocess.run\<close> starts.
\<close>

record env =
  np_pi :: rat
  fmul :: "rat \<Rightarrow> rat \<Rightarrow> rat"
  fdiv :: "rat \<Rightarrow> rat \<Rightarrow> rat"
  np_cos :: "rat \<Rightarrow> rat"
  np_sin :: "rat \<Rightarrow> rat"
  float_of_int :: "int \<Rightarrow> rat"
  float_str :: "rat \<Rightarrow> string"
  yaml_load :: "string list \<Rightarrow> error + yaml"
  yaml_dump :: "yaml \<Rightarrow> string list"
  f90nml_read :: "string list \<Rightarrow> error + nml"
  f90nml_patch :: "string list \<Rightarrow> string \<Rightarrow> string \<Rightarrow> scalar \<Rightarrow> error + string list"
  git_repo :: "path \<Rightarrow> unit prog"
  git_clone :: "path \<Rightarrow> path \<Rightarrow> unit prog"
  git_remote_rename :: "path \<Rightarrow> string \<Rightarrow> string \<Rightarrow> unit prog"
  git_remote_url :: "path \<Rightarrow> string \<Rightarrow> string prog"
  git_create_remote :: "path \<Rightarrow> string \<Rightarrow> string \<Rightarrow> unit prog"
  git_checkout_b :: "path \<Rightarrow> string \<Rightarrow> unit prog"
  git_is_dirty :: "path \<Rightarrow> bool prog"
  git_rm :: "path \<Rightarrow> string \<Rightarrow> unit prog"
  git_commit_all :: "path \<Rightarrow> string \<Rightarrow> unit prog"
  shell :: "string \<Rightarrow> world \<Rightarrow> int \<times> world"

text \<open>\<^verbatim>\<open>subprocess.run(cmd, check=..., shell=True)\<close>.\<close>

definition subprocess_run :: "env \<Rightarrow> string \<Rightarrow> bool \<Rightarrow> unit prog" where
  "subprocess_run env cmd check = (\<lambda>w.
     case shell env cmd (w\<lparr>cmds := cmds w @ [cmd]\<rparr>) of
       (rc, w') \<Rightarrow> if check \<and> rc \<noteq> 0 then (Inl (CalledProcessError cmd), w') else (Inr (), w'))"

text \<open>\<^verbatim>\<open>str(v)\<close> for a scalar.\<close>

definition py_str :: "env \<Rightarrow> scalar \<Rightarrow> string" where
  "py_str env v =
     (case v of
        VInt i \<Rightarrow> str_int i
      | VFloat r \<Rightarrow> float_str env r
      | VStr s \<Rightarrow> s
      | VBool b \<Rightarrow> (if b then ''True'' else ''False''))"

text \<open>\<^verbatim>\<open>d[k]\<close> on a value loaded from YAML.\<close>

definition getitem :: "yaml \<Rightarrow> string \<Rightarrow> error + yaml" where
  "getitem d k =
     (case d of
        YMap kvs \<Rightarrow> (case map_of kvs k of None \<Rightarrow> Inl (KeyError k) | Some v \<Rightarrow> Inr v)
      | _ \<Rightarrow> Inl (TypeError k))"

section \<open>Run reconciliation (\<^verbatim>\<open>ensemble\<close>, lines 214 to 228)\<close>

text \<open>The value of \<^verbatim>\<open>indata['nruns']\<close> as the number it is compared and subtracted as.\<close>

definition nruns_of :: "yaml \<Rightarrow> error + int" where
  "nruns_of indata =
     (case getitem indata ''nruns'' of
        Inl e \<Rightarrow> Inl e
      | Inr (YScalar (VInt n)) \<Rightarrow> Inr n
      | Inr (YScalar (VBool b)) \<Rightarrow> Inr (if b then 1 else 0)
      | Inr (YScalar (VFloat r)) \<Rightarrow> Inl (Unmodelled ''nruns'')
      | Inr _ \<Rightarrow> Inl (TypeError ''nruns''))"

text \<open>The body of the loop over the ensemble members, lines 217 to 227.\<close>

definition reconcile_one :: "env \<Rightarrow> bool \<Rightarrow> int \<Rightarrow> path \<Rightarrow> unit prog" where
  "reconcile_one env test nruns exppath = (\<lambda>w.
     let doneruns =
           int (length (glob w (join (join exppath ''archive'') ''output[0-9][0-9][0-9]*''))) - 1;
         newruns = nruns - doneruns
     in if newruns > 0 then
          (let cmd0 = ''cd '' @ exppath @ '' && payu run -n '' @ str_int newruns;
               cmd = (if test then ''# '' @ cmd0 else cmd0)
           in andthen (print (''\<newline>'' @ cmd)) (\<lambda>_. subprocess_run env cmd False) w)
        else
          print (''\<newline> -- '' @ exppath @ '' has already completed '' @ str_int doneruns @ '' runs'') w)"

fun reconcile_loop :: "env \<Rightarrow> bool \<Rightarrow> int \<Rightarrow> path list \<Rightarrow> unit prog" where
  "reconcile_loop env test nruns [] = ret ()"
| "reconcile_loop env test nruns (exppath # rest) =
     andthen (reconcile_one env test nruns exppath) (\<lambda>_. reconcile_loop env test nruns rest)"

text \<open>Lines 215 to 227: the loop runs only under the guard \<^verbatim>\<open>indata['nruns'] > 0\<close>.\<close>

definition reconcile :: "env \<Rightarrow> bool \<Rightarrow> int \<Rightarrow> path list \<Rightarrow> unit prog" where
  "reconcile env test nruns ens =
     (if nruns > 0 then reconcile_loop env test nruns ens else ret ())"


section \<open>Building one variant (\<^verbatim>\<open>ensemble\<close>, lines 65 to 212)\<close>

datatype outcome =
    AlreadyExists
  | IdenticalToTemplate
  | Committed
  | DiscardedDuplicate
  | DiscardedSyncConflict
  | DiscardedArchiveConflict

text \<open>
  The variables of the function that live across iterations of its loops: the list
  \<^verbatim>\<open>ensemble\<close>, and the variables assigned under a condition and read later, which are
  unbound until their first assignment.
\<close>

record locals =
  ensemble_paths :: "path list"
  cosw :: "rat option"
  sinw :: "rat option"
  syncdir :: "path option"
  restartpath :: "path option"

text \<open>Python's \<^verbatim>\<open>==\<close> on scalars: numbers and booleans by value, strings by content.\<close>

definition num_val :: "scalar \<Rightarrow> rat option" where
  "num_val v =
     (case v of
        VInt i \<Rightarrow> Some (of_int i)
      | VFloat r \<Rightarrow> Some r
      | VBool b \<Rightarrow> Some (if b then 1 else 0)
      | VStr s \<Rightarrow> None)"

definition py_eq :: "scalar \<Rightarrow> scalar \<Rightarrow> bool" where
  "py_eq a b =
     (case (num_val a, num_val b) of
        (Some x, Some y) \<Rightarrow> x = y
      | (None, None) \<Rightarrow> a = b
      | _ \<Rightarrow> False)"

text \<open>\<^verbatim>\<open>v * np.pi / 180.\<close>\<close>

definition to_radians :: "env \<Rightarrow> scalar \<Rightarrow> error + rat" where
  "to_radians env v =
     (case v of
        VInt i \<Rightarrow> Inr (fdiv env (fmul env (float_of_int env i) (np_pi env)) 180)
      | VFloat r \<Rightarrow> Inr (fdiv env (fmul env r (np_pi env)) 180)
      | VBool b \<Rightarrow> Inr (fdiv env (fmul env (float_of_int env (if b then 1 else 0)) (np_pi env)) 180)
      | VStr s \<Rightarrow> Inl (TypeError s))"

text \<open>\<^verbatim>\<open>nml[group][name]\<close>\<close>

definition nml_get :: "nml \<Rightarrow> string \<Rightarrow> string \<Rightarrow> error + scalar" where
  "nml_get nml grp name =
     (case map_of nml grp of
        None \<Rightarrow> Inl (KeyError grp)
      | Some vars \<Rightarrow> (case map_of vars name of None \<Rightarrow> Inl (KeyError name) | Some x \<Rightarrow> Inr x))"

text \<open>Lines 74 to 83: does this value differ from the template's?\<close>

definition check_identical ::
  "env \<Rightarrow> path \<Rightarrow> string \<Rightarrow> string \<Rightarrow> string \<Rightarrow> scalar \<Rightarrow> bool \<Rightarrow> locals \<Rightarrow> (bool \<times> locals) prog" where
  "check_identical env templatepath fname grp name v turningangle loc =
     andthen (read_lines (join templatepath fname)) (\<lambda>template_nml_file.
     andthen (lift (f90nml_read env template_nml_file)) (\<lambda>nml.
       if turningangle then
         andthen (lift (to_radians env v)) (\<lambda>rad.
           let c = np_cos env rad;
               s = np_sin env rad;
               loc' = loc\<lparr>cosw := Some c, sinw := Some s\<rparr>
           in andthen (lift (nml_get nml grp ''cosw'')) (\<lambda>a.
                if py_eq a (VFloat c)
                then andthen (lift (nml_get nml grp ''sinw'')) (\<lambda>b. ret (py_eq b (VFloat s), loc'))
                else ret (False, loc')))
       else andthen (lift (nml_get nml grp name)) (\<lambda>a. ret (py_eq a v, loc))))"

text \<open>Lines 88 to 95: clone the template, fix up the remotes, switch to a new branch.\<close>

definition clone_template :: "env \<Rightarrow> path \<Rightarrow> path \<Rightarrow> string \<Rightarrow> path \<Rightarrow> unit prog" where
  "clone_template env templatepath exppath expname relexppath =
     andthen (print (''\<newline>creating '' @ relexppath)) (\<lambda>_.
     andthen (git_clone env templatepath exppath) (\<lambda>_.
     andthen (git_remote_rename env exppath ''origin'' ''template'') (\<lambda>_.
     andthen (git_remote_url env templatepath ''origin'') (\<lambda>url.
     andthen (git_create_remote env exppath ''origin'' url) (\<lambda>_.
     git_checkout_b env exppath expname)))))"

text \<open>
  \<^verbatim>\<open>f90nml.patch(nml_path, {group: {name: v}}, out_path)\<close>: the library opens the output
  for writing, then reads the input, and writes the patched text.
\<close>

definition f90nml_patch_file ::
  "env \<Rightarrow> path \<Rightarrow> string \<Rightarrow> string \<Rightarrow> scalar \<Rightarrow> path \<Rightarrow> unit prog" where
  "f90nml_patch_file env nml_path grp name v out_path =
     andthen (write_lines out_path []) (\<lambda>_.
     andthen (read_lines nml_path) (\<lambda>ls.
     andthen (lift (f90nml_patch env ls grp name v)) (\<lambda>ls'.
     write_lines out_path ls')))"

text \<open>Lines 97 to 105: perturb the parameters.\<close>

definition perturb ::
  "env \<Rightarrow> path \<Rightarrow> string \<Rightarrow> string \<Rightarrow> string \<Rightarrow> scalar \<Rightarrow> bool \<Rightarrow> locals \<Rightarrow> unit prog" where
  "perturb env exppath fname grp name v turningangle loc =
     (let fpath = join exppath fname in
      andthen
        (if turningangle then
           (case cosw loc of
              None \<Rightarrow> raise (UnboundLocalError ''cosw'')
            | Some c \<Rightarrow>
                andthen (f90nml_patch_file env fpath grp ''cosw'' (VFloat c) (fpath @ ''_tmp2'')) (\<lambda>_.
                  case sinw loc of
                    None \<Rightarrow> raise (UnboundLocalError ''sinw'')
                  | Some s \<Rightarrow>
                      andthen (f90nml_patch_file env (fpath @ ''_tmp2'') grp ''sinw'' (VFloat s)
                                 (fpath @ ''_tmp'')) (\<lambda>_.
                      os_remove (fpath @ ''_tmp2''))))
         else f90nml_patch_file env fpath grp name v (fpath @ ''_tmp''))
        (\<lambda>_. os_rename (fpath @ ''_tmp'') fpath))"

text \<open>Lines 111 to 122: set SYNCDIR in sync\_data.sh. The loop over the lines first.\<close>

fun sync_lines :: "string \<Rightarrow> string list \<Rightarrow> path option \<Rightarrow> string list \<times> path option" where
  "sync_lines expname [] sd = ([], sd)"
| "sync_lines expname (line # rest) sd =
     (if startswith line ''SYNCDIR='' then
        (let syncbase = dirname (drop (length ''SYNCDIR='') line);
             syncdir = join syncbase expname
         in case sync_lines expname rest (Some syncdir) of
              (out, sd') \<Rightarrow> ((''SYNCDIR='' @ syncdir @ ''\<newline>'') # out, sd'))
      else
        (case sync_lines expname rest sd of (out, sd') \<Rightarrow> (line # out, sd')))"

definition set_syncdir :: "path \<Rightarrow> string \<Rightarrow> locals \<Rightarrow> locals prog" where
  "set_syncdir exppath expname loc =
     (let sdpath = join exppath ''sync_data.sh'' in
      andthen (write_lines (sdpath @ ''_tmp'') []) (\<lambda>_.
      andthen (read_lines sdpath) (\<lambda>rf.
        case sync_lines expname rf (syncdir loc) of
          (out, sd) \<Rightarrow>
            andthen (write_lines (sdpath @ ''_tmp'') out) (\<lambda>_.
            andthen (os_rename (sdpath @ ''_tmp'') sdpath) (\<lambda>_.
            ret (loc\<lparr>syncdir := sd\<rparr>))))))"

text \<open>Lines 131 to 148: find the work directory, with payu or, under test, without.\<close>

definition prepare_work :: "env \<Rightarrow> bool \<Rightarrow> string \<Rightarrow> path \<Rightarrow> path \<Rightarrow> string \<Rightarrow> path prog" where
  "prepare_work env test template templatepath exppath expname =
     (if \<not> test then
        andthen (subprocess_run env (''cd '' @ exppath @ '' && payu sweep && payu setup'') False) (\<lambda>_.
        andthen (realpath (join exppath ''work'')) (\<lambda>workpath.
        andthen (subprocess_run env (''cd '' @ exppath @ '' && payu sweep'') True) (\<lambda>_.
        ret workpath)))
      else
        andthen (realpath (join (join ''test'' ''work'') expname)) (\<lambda>workpath.
        andthen (os_makedirs workpath) (\<lambda>_.
        andthen (os_symlink workpath (join exppath ''work'')) (\<lambda>_.
        let archivepath = replace ''/work/'' ''/archive/'' workpath in
        andthen (os_makedirs archivepath) (\<lambda>_.
        andthen (realpath (join exppath ''work'')) (\<lambda>workpath.
        andthen (os_remove (join exppath ''work'')) (\<lambda>_.
        andthen (rmtree workpath) (\<lambda>_.
        andthen
          (if template = ''test/1deg_jra55_iaf'' then
             (let templatearchive = join templatepath ''archive'' in
              andthen (exists templatearchive) (\<lambda>e.
                if \<not> e
                then os_symlink (replace expname (basename template) archivepath) templatearchive
                else ret ()))
           else ret ())
          (\<lambda>_. ret workpath)))))))))"

text \<open>Lines 157 to 168: link the archive and the restart, copy the ice namelist.\<close>

definition link_restart :: "string \<Rightarrow> path \<Rightarrow> string \<Rightarrow> path \<Rightarrow> locals \<Rightarrow> locals prog" where
  "link_restart template exppath startfrom archivepath loc =
     andthen (os_symlink archivepath (join exppath ''archive'')) (\<lambda>_.
     let d = join ''archive'' (''restart'' @ startfrom) in
     andthen (realpath (join template d)) (\<lambda>rp.
     andthen (os_symlink rp (join exppath d)) (\<lambda>_.
     let d = join (join ''archive'' (''output'' @ startfrom)) ''ice'' in
     andthen (os_makedirs (join exppath d)) (\<lambda>_.
     andthen (shutil_copy (join (join template d) ''cice_in.nml'') (join exppath d)) (\<lambda>_.
     ret (loc\<lparr>restartpath := Some rp\<rparr>))))))"

text \<open>Lines 170 to 180: set jobname in config.yaml.\<close>

definition jobname_lines :: "string \<Rightarrow> string list \<Rightarrow> string list" where
  "jobname_lines jobname rf =
     map (\<lambda>line. if startswith line ''jobname:'' then ''jobname: '' @ jobname @ ''\<newline>'' else line) rf"

definition set_jobname :: "env \<Rightarrow> path \<Rightarrow> string \<Rightarrow> scalar \<Rightarrow> unit prog" where
  "set_jobname env exppath name v =
     (let configpath = join exppath ''config.yaml'' in
      andthen (write_lines (configpath @ ''_tmp'') []) (\<lambda>_.
      andthen (read_lines configpath) (\<lambda>rf.
      andthen (write_lines (configpath @ ''_tmp'') (jobname_lines (name @ ''_'' @ py_str env v) rf)) (\<lambda>_.
      os_rename (configpath @ ''_tmp'') configpath))))"

text \<open>Lines 182 to 203: update metadata.yaml.\<close>

definition as_str :: "yaml \<Rightarrow> error + string" where
  "as_str y =
     (case y of
        YScalar (VStr s) \<Rightarrow> Inr s
      | YLiteral s \<Rightarrow> Inr s
      | YSeq ys \<Rightarrow> Inl (Unmodelled ''str'')
      | _ \<Rightarrow> Inl (TypeError ''str''))"

definition yaml_str :: "env \<Rightarrow> yaml \<Rightarrow> error + string" where
  "yaml_str env y =
     (case y of
        YScalar v \<Rightarrow> Inr (py_str env v)
      | YLiteral s \<Rightarrow> Inr s
      | YNull \<Rightarrow> Inr ''None''
      | _ \<Rightarrow> Inl (Unmodelled ''str''))"

definition setitem :: "yaml \<Rightarrow> string \<Rightarrow> yaml \<Rightarrow> error + yaml" where
  "setitem d k v =
     (case d of
        YMap kvs \<Rightarrow>
          Inr (YMap (if map_of kvs k = None then kvs @ [(k, v)]
                     else map (\<lambda>(a, b). if a = k then (a, v) else (a, b)) kvs))
      | _ \<Rightarrow> Inl (TypeError k))"

definition extend :: "yaml \<Rightarrow> yaml list \<Rightarrow> error + yaml" where
  "extend y xs = (case y of YSeq ys \<Rightarrow> Inr (YSeq (ys @ xs)) | _ \<Rightarrow> Inl (TypeError ''+=''))"

definition update_metadata ::
  "env \<Rightarrow> path \<Rightarrow> path \<Rightarrow> string \<Rightarrow> string \<Rightarrow> string \<Rightarrow> string \<Rightarrow> scalar \<Rightarrow> bool \<Rightarrow> locals \<Rightarrow> unit prog" where
  "update_metadata env exppath templatepath startfrom fname grp name v turningangle loc =
     (let mpath = join exppath ''metadata.yaml'' in
      andthen (read_lines mpath) (\<lambda>ls.
      andthen (lift (yaml_load env ls)) (\<lambda>metadata.
      andthen (lift (getitem metadata ''description'')) (\<lambda>d.
      andthen (lift (as_str d)) (\<lambda>desc.
      let desc = desc @ ''\<newline>NOTE: this is a perturbation experiment, but the description above is for the control run.'';
          desc = desc @ ''\<newline>This perturbation experiment is based on the control run '' @ templatepath
      in
      andthen
        (if startfrom = ''rest'' then ret (desc @ ''\<newline>but with condition of rest'')
         else (case restartpath loc of
                 None \<Rightarrow> raise (UnboundLocalError ''restartpath'')
               | Some rp \<Rightarrow> ret (desc @ ''\<newline>but with initial condition '' @ rp)))
        (\<lambda>desc.
      let desc =
            (if turningangle
             then desc @ ''\<newline>and '' @ fname @ '' -> '' @ grp @ '' -> '' @ ''cosw and sinw''
                    @ '' changed to give a turning angle of '' @ py_str env v @ '' degrees.''
             else desc @ ''\<newline>and '' @ fname @ '' -> '' @ grp @ '' -> '' @ name
                    @ '' changed to '' @ py_str env v)
      in
      andthen (lift (setitem metadata ''description'' (YLiteral desc))) (\<lambda>metadata.
      andthen (lift (getitem metadata ''notes'')) (\<lambda>notes.
      andthen (lift (yaml_str env notes)) (\<lambda>notes.
      andthen (lift (setitem metadata ''notes'' (YLiteral notes))) (\<lambda>metadata.
      andthen (lift (getitem metadata ''keywords'')) (\<lambda>kw.
      andthen (lift (extend kw [YScalar (VStr ''perturbation''), YScalar (VStr name)])) (\<lambda>kw.
      andthen (lift (setitem metadata ''keywords'' kw)) (\<lambda>metadata.
      andthen
        (if turningangle then
           andthen (lift (getitem metadata ''keywords'')) (\<lambda>kw.
           andthen (lift (extend kw [YScalar (VStr ''cosw''), YScalar (VStr ''sinw'')])) (\<lambda>kw.
           lift (setitem metadata ''keywords'' kw)))
         else ret metadata)
        (\<lambda>metadata. write_lines mpath (yaml_dump env metadata)))))))))))))))"

text \<open>Lines 205 to 207: remove the run summaries from the clone.\<close>

fun git_rm_each :: "env \<Rightarrow> path \<Rightarrow> path list \<Rightarrow> unit prog" where
  "git_rm_each env exppath [] = ret ()"
| "git_rm_each env exppath (f # rest) =
     andthen (git_rm env exppath (basename f)) (\<lambda>_. git_rm_each env exppath rest)"

definition remove_run_summaries :: "env \<Rightarrow> path \<Rightarrow> unit prog" where
  "remove_run_summaries env exppath = (\<lambda>w.
     git_rm_each env exppath (glob w (join exppath ''run_summary_*.csv'')) w)"

text \<open>
  Lines 128 to 212, once the sync directory is known not to exist: restart linkage unless
  starting from rest, job name, metadata, commit.
\<close>

definition finish_variant ::
  "env \<Rightarrow> bool \<Rightarrow> string \<Rightarrow> path \<Rightarrow> string \<Rightarrow> string \<Rightarrow> string \<Rightarrow> string \<Rightarrow> scalar \<Rightarrow> bool \<Rightarrow>
   path \<Rightarrow> path \<Rightarrow> string \<Rightarrow> locals \<Rightarrow> (outcome \<times> locals) prog" where
  "finish_variant env test template templatepath startfrom fname grp name v turningangle
       exppath relexppath expname loc =
     andthen
       (if startfrom \<noteq> ''rest'' then
          andthen (prepare_work env test template templatepath exppath expname) (\<lambda>workpath.
          let archivepath = replace ''/work/'' ''/archive/'' workpath in
          (\<lambda>w.
            if glob w (join archivepath ''output*'') @ glob w (join archivepath ''restart*'') \<noteq> []
            then andthen (print ('' *** deleting '' @ relexppath @ '' - archive '' @ archivepath
                                  @ '' already contains restarts and/or outputs''))
                   (\<lambda>_. andthen (rmtree exppath) (\<lambda>_. ret (True, loc))) w
            else andthen (link_restart template exppath startfrom archivepath loc)
                   (\<lambda>loc. ret (False, loc)) w))
        else ret (False, loc))
       (\<lambda>(discarded, loc).
          if discarded then ret (DiscardedArchiveConflict, loc)
          else
            andthen (set_jobname env exppath name v) (\<lambda>_.
            andthen (update_metadata env exppath templatepath startfrom fname grp name v
                       turningangle loc) (\<lambda>_.
            andthen (remove_run_summaries env exppath) (\<lambda>_.
            andthen (git_commit_all env exppath (''set up '' @ expname)) (\<lambda>_.
            ret (Committed, loc\<lparr>ensemble_paths := ensemble_paths loc @ [exppath]\<rparr>))))))"

text \<open>
  Lines 111 to 212: set the sync directory, give the variant up if that directory exists,
  and finish it otherwise.
\<close>

definition sync_and_finish ::
  "env \<Rightarrow> bool \<Rightarrow> string \<Rightarrow> path \<Rightarrow> string \<Rightarrow> string \<Rightarrow> string \<Rightarrow> string \<Rightarrow> scalar \<Rightarrow> bool \<Rightarrow>
   path \<Rightarrow> path \<Rightarrow> string \<Rightarrow> locals \<Rightarrow> (outcome \<times> locals) prog" where
  "sync_and_finish env test template templatepath startfrom fname grp name v turningangle
       exppath relexppath expname loc =
     andthen (set_syncdir exppath expname loc) (\<lambda>loc.
     case syncdir loc of
       None \<Rightarrow> raise (UnboundLocalError ''syncdir'')
     | Some sd \<Rightarrow>
         andthen (exists sd) (\<lambda>e.
         if e then
           andthen (print ('' *** deleting '' @ relexppath @ '' - SYNCDIR '' @ sd
                            @ '' already exists'')) (\<lambda>_.
           andthen (rmtree exppath) (\<lambda>_.
           ret (DiscardedSyncConflict, loc)))
         else
           finish_variant env test template templatepath startfrom fname grp name v
             turningangle exppath relexppath expname loc))"

text \<open>
  Lines 88 to 212: clone, perturb, give the variant up if nothing changed, and go on
  otherwise.
\<close>

definition create_variant ::
  "env \<Rightarrow> bool \<Rightarrow> string \<Rightarrow> path \<Rightarrow> string \<Rightarrow> string \<Rightarrow> string \<Rightarrow> string \<Rightarrow> scalar \<Rightarrow> bool \<Rightarrow>
   path \<Rightarrow> path \<Rightarrow> string \<Rightarrow> locals \<Rightarrow> (outcome \<times> locals) prog" where
  "create_variant env test template templatepath startfrom fname grp name v turningangle
       exppath relexppath expname loc =
     andthen (clone_template env templatepath exppath expname relexppath) (\<lambda>_.
     andthen (perturb env exppath fname grp name v turningangle loc) (\<lambda>_.
     andthen (git_is_dirty env exppath) (\<lambda>dirty.
     if \<not> dirty then
       andthen (print ('' *** deleting '' @ relexppath
                        @ '' - parameters are identical to '' @ template)) (\<lambda>_.
       andthen (rmtree exppath) (\<lambda>_.
       ret (DiscardedDuplicate, loc)))
     else
       sync_and_finish env test template templatepath startfrom fname grp name v
         turningangle exppath relexppath expname loc)))"

text \<open>The body of the loop over the values, lines 65 to 212.\<close>

definition build_variant ::
  "env \<Rightarrow> bool \<Rightarrow> string \<Rightarrow> path \<Rightarrow> string \<Rightarrow> string \<Rightarrow> string \<Rightarrow> string \<Rightarrow> bool \<Rightarrow> scalar \<Rightarrow>
   locals \<Rightarrow> (outcome \<times> locals) prog" where
  "build_variant env test template templatepath startfrom fname grp name turningangle v loc =
     andthen getcwd (\<lambda>cwd0.
     let exppath = join cwd0 (template @ ''_'' @ name @ ''_'' @ py_str env v);
         relexppath = relpath cwd0 exppath cwd0;
         expname = basename relexppath
     in
     andthen (exists exppath) (\<lambda>e.
       if e then
         andthen (print (''\<newline> -- not creating '' @ relexppath @ '' - already exists'')) (\<lambda>_.
         ret (AlreadyExists, loc\<lparr>ensemble_paths := ensemble_paths loc @ [exppath]\<rparr>))
       else
         andthen (check_identical env templatepath fname grp name v turningangle loc) (\<lambda>(skip, loc).
         if skip then
           andthen (print (''\<newline> -- not creating '' @ relexppath
                            @ '' - parameters are identical to '' @ template)) (\<lambda>_.
           ret (IdenticalToTemplate, loc))
         else
           create_variant env test template templatepath startfrom fname grp name v
             turningangle exppath relexppath expname loc)))"

section \<open>The loops over the axes and the whole run (\<^verbatim>\<open>ensemble\<close>, lines 54 to 228)\<close>

text \<open>\<^verbatim>\<open>d.items()\<close>, and what \<^verbatim>\<open>for v in values\<close> iterates over.\<close>

definition items :: "yaml \<Rightarrow> error + (string \<times> yaml) list" where
  "items d = (case d of YMap kvs \<Rightarrow> Inr kvs | _ \<Rightarrow> Inl (AttributeError ''items''))"

definition iterate :: "yaml \<Rightarrow> error + yaml list" where
  "iterate y =
     (case y of
        YSeq ys \<Rightarrow> Inr ys
      | YMap kvs \<Rightarrow> Inr (map (\<lambda>(k, v). YScalar (VStr k)) kvs)
      | YScalar (VStr s) \<Rightarrow> Inr (map (\<lambda>c. YScalar (VStr [c])) s)
      | YLiteral s \<Rightarrow> Inr (map (\<lambda>c. YScalar (VStr [c])) s)
      | _ \<Rightarrow> Inl (TypeError ''iter''))"

definition scalar_of :: "yaml \<Rightarrow> error + scalar" where
  "scalar_of y = (case y of YScalar v \<Rightarrow> Inr v | _ \<Rightarrow> Inl (Unmodelled ''value''))"

fun for_values ::
  "env \<Rightarrow> bool \<Rightarrow> string \<Rightarrow> path \<Rightarrow> string \<Rightarrow> string \<Rightarrow> string \<Rightarrow> string \<Rightarrow> bool \<Rightarrow> yaml list \<Rightarrow>
   locals \<Rightarrow> locals prog" where
  "for_values env test template templatepath startfrom fname grp name turningangle [] loc = ret loc"
| "for_values env test template templatepath startfrom fname grp name turningangle (y # ys) loc =
     andthen (lift (scalar_of y)) (\<lambda>v.
     andthen (build_variant env test template templatepath startfrom fname grp name turningangle v loc)
       (\<lambda>(out, loc).
     for_values env test template templatepath startfrom fname grp name turningangle ys loc))"

fun for_names ::
  "env \<Rightarrow> bool \<Rightarrow> string \<Rightarrow> path \<Rightarrow> string \<Rightarrow> string \<Rightarrow> string \<Rightarrow> (string \<times> yaml) list \<Rightarrow>
   locals \<Rightarrow> locals prog" where
  "for_names env test template templatepath startfrom fname grp [] loc = ret loc"
| "for_names env test template templatepath startfrom fname grp ((name, values) # rest) loc =
     (let turningangle = ([fname, grp, name] = [''ice/cice_in.nml'', ''dynamics_nml'', ''turning_angle''])
      in andthen (lift (iterate values)) (\<lambda>vs.
         andthen (for_values env test template templatepath startfrom fname grp name turningangle vs loc)
           (\<lambda>loc.
         for_names env test template templatepath startfrom fname grp rest loc)))"

fun for_groups ::
  "env \<Rightarrow> bool \<Rightarrow> string \<Rightarrow> path \<Rightarrow> string \<Rightarrow> string \<Rightarrow> (string \<times> yaml) list \<Rightarrow>
   locals \<Rightarrow> locals prog" where
  "for_groups env test template templatepath startfrom fname [] loc = ret loc"
| "for_groups env test template templatepath startfrom fname ((grp, names) # rest) loc =
     andthen (lift (items names)) (\<lambda>ns.
     andthen (for_names env test template templatepath startfrom fname grp ns loc) (\<lambda>loc.
     for_groups env test template templatepath startfrom fname rest loc))"

fun for_files ::
  "env \<Rightarrow> bool \<Rightarrow> string \<Rightarrow> path \<Rightarrow> string \<Rightarrow> (string \<times> yaml) list \<Rightarrow> locals \<Rightarrow> locals prog" where
  "for_files env test template templatepath startfrom [] loc = ret loc"
| "for_files env test template templatepath startfrom ((fname, nmls) # rest) loc =
     andthen (lift (items nmls)) (\<lambda>gs.
     andthen (for_groups env test template templatepath startfrom fname gs loc) (\<lambda>loc.
     for_files env test template templatepath startfrom rest loc))"

definition as_path :: "yaml \<Rightarrow> error + string" where
  "as_path y =
     (case y of YScalar (VStr s) \<Rightarrow> Inr s | YLiteral s \<Rightarrow> Inr s | _ \<Rightarrow> Inl (TypeError ''join''))"

definition no_locals :: locals where
  "no_locals =
     \<lparr>ensemble_paths = [], cosw = None, sinw = None, syncdir = None, restartpath = None\<rparr>"

text \<open>
  The function \<^verbatim>\<open>ensemble(yamlfile, test)\<close>. It returns nothing; the model returns the
  list \<^verbatim>\<open>ensemble\<close> it has built.
\<close>

definition ensemble :: "env \<Rightarrow> path \<Rightarrow> bool \<Rightarrow> path list prog" where
  "ensemble env yamlfile test =
     andthen (read_lines yamlfile) (\<lambda>ls.
     andthen (lift (yaml_load env ls)) (\<lambda>indata.
     andthen (lift (getitem indata ''template'')) (\<lambda>t.
     andthen getcwd (\<lambda>cwd0.
     andthen (lift (as_path t)) (\<lambda>template.
     let templatepath = join cwd0 template in
     andthen (git_repo env templatepath) (\<lambda>_.
     andthen (lift (getitem indata ''startfrom'')) (\<lambda>sf.
     andthen (lift (yaml_str env sf)) (\<lambda>s.
     let startfrom = zfill 3 (lower (strip s)) in
     andthen (lift (getitem indata ''namelists'')) (\<lambda>nl.
     andthen (lift (items nl)) (\<lambda>files.
     andthen (for_files env test template templatepath startfrom files no_locals) (\<lambda>loc.
     andthen (lift (nruns_of indata)) (\<lambda>nruns.
     andthen (reconcile env test nruns (ensemble_paths loc)) (\<lambda>_.
     andthen (print []) (\<lambda>_.
     ret (ensemble_paths loc)))))))))))))))"

section \<open>A small concrete environment and world\<close>

text \<open>
  Stand-ins for the collaborators, used to run the model on concrete inputs: a repository is
  the list of its committed files, a clone copies them, and the tree is dirty when a
  committed file differs on disk; the shell does nothing; the parsers look the text up in a
  table; arithmetic is exact.
\<close>

definition demo_git_repo :: "path \<Rightarrow> unit prog" where
  "demo_git_repo p = (\<lambda>w.
     if map_of (repos w) (key w p) = None then (Inl (LibraryError ''InvalidGitRepositoryError''), w)
     else (Inr (), w))"

definition demo_git_clone :: "path \<Rightarrow> path \<Rightarrow> unit prog" where
  "demo_git_clone src dst = (\<lambda>w.
     case map_of (repos w) (key w src) of
       None \<Rightarrow> (Inl (LibraryError ''clone''), w)
     | Some r \<Rightarrow>
         if node_at (fs w) (key w dst) \<noteq> None then (Inl (LibraryError ''clone''), w)
         else (Inr (),
               w\<lparr>fs := (key w dst, Dir)
                         # map (\<lambda>(f, ls). (key w (join dst f), File ls)) (head_files r) @ fs w,
                 repos := (key w dst, r\<lparr>remotes := [(''origin'', render (key w src))]\<rparr>) # repos w\<rparr>))"

definition demo_git_remote_rename :: "path \<Rightarrow> string \<Rightarrow> string \<Rightarrow> unit prog" where
  "demo_git_remote_rename p old new = (\<lambda>w.
     case map_of (repos w) (key w p) of
       None \<Rightarrow> (Inl (LibraryError ''remote''), w)
     | Some r \<Rightarrow>
         (case map_of (remotes r) old of
            None \<Rightarrow> (Inl (LibraryError ''remote''), w)
          | Some url \<Rightarrow>
              (Inr (), w\<lparr>repos := (key w p, r\<lparr>remotes := (new, url) # filter (\<lambda>(n, u). n \<noteq> old) (remotes r)\<rparr>)
                                   # repos w\<rparr>)))"

definition demo_git_remote_url :: "path \<Rightarrow> string \<Rightarrow> string prog" where
  "demo_git_remote_url p n = (\<lambda>w.
     case map_of (repos w) (key w p) of
       None \<Rightarrow> (Inl (LibraryError ''remote''), w)
     | Some r \<Rightarrow>
         (case map_of (remotes r) n of
            None \<Rightarrow> (Inl (LibraryError ''remote''), w)
          | Some url \<Rightarrow> (Inr url, w)))"

definition demo_git_create_remote :: "path \<Rightarrow> string \<Rightarrow> string \<Rightarrow> unit prog" where
  "demo_git_create_remote p n url = (\<lambda>w.
     case map_of (repos w) (key w p) of
       None \<Rightarrow> (Inl (LibraryError ''remote''), w)
     | Some r \<Rightarrow>
         if map_of (remotes r) n \<noteq> None then (Inl (LibraryError ''remote''), w)
         else (Inr (), w\<lparr>repos := (key w p, r\<lparr>remotes := (n, url) # remotes r\<rparr>) # repos w\<rparr>))"

definition demo_git_checkout_b :: "path \<Rightarrow> string \<Rightarrow> unit prog" where
  "demo_git_checkout_b p b = (\<lambda>w.
     case map_of (repos w) (key w p) of
       None \<Rightarrow> (Inl (LibraryError ''checkout''), w)
     | Some r \<Rightarrow>
         if b \<in> set (branches r) then (Inl (LibraryError ''checkout''), w)
         else (Inr (), w\<lparr>repos := (key w p, r\<lparr>branches := b # branches r\<rparr>) # repos w\<rparr>))"

definition demo_git_is_dirty :: "path \<Rightarrow> bool prog" where
  "demo_git_is_dirty p = (\<lambda>w.
     case map_of (repos w) (key w p) of
       None \<Rightarrow> (Inl (LibraryError ''is_dirty''), w)
     | Some r \<Rightarrow>
         (Inr (list_ex (\<lambda>(f, ls). node_at (fs w) (key w (join p f)) \<noteq> Some (File ls)) (head_files r)), w))"

definition demo_git_rm :: "path \<Rightarrow> string \<Rightarrow> unit prog" where
  "demo_git_rm p f = (\<lambda>w.
     case map_of (repos w) (key w p) of
       None \<Rightarrow> (Inl (LibraryError ''rm''), w)
     | Some r \<Rightarrow>
         if map_of (head_files r) f = None \<or> \<not> has_dir (key w p) w
            \<or> \<not> has_file (key w (join p f)) w
         then (Inl (LibraryError ''rm''), w)
         else (Inr (), w\<lparr>fs := filter (\<lambda>(q, m). q \<noteq> key w (join p f)) (fs w)\<rparr>))"

definition demo_git_commit_all :: "path \<Rightarrow> string \<Rightarrow> unit prog" where
  "demo_git_commit_all p msg = (\<lambda>w.
     case map_of (repos w) (key w p) of
       None \<Rightarrow> (Inl (LibraryError ''commit''), w)
     | Some r \<Rightarrow>
         (Inr (),
          w\<lparr>repos :=
              (key w p,
               r\<lparr>head_files :=
                   concat (map (\<lambda>(f, ls). case node_at (fs w) (key w (join p f)) of
                                            Some (File ls') \<Rightarrow> [(f, ls')] | _ \<Rightarrow> [])
                             (head_files r))\<rparr>) # repos w\<rparr>))"

definition demo_env :: "(string list \<times> yaml) list \<Rightarrow> (string list \<times> nml) list \<Rightarrow> env" where
  "demo_env ytab ntab =
     \<lparr>np_pi = 355 / 113,
      fmul = (\<lambda>x y. x * y),
      fdiv = (\<lambda>x y. x / y),
      np_cos = (\<lambda>x. 1 - x * x / 2),
      np_sin = (\<lambda>x. x),
      float_of_int = of_int,
      float_str = (\<lambda>r. ''float''),
      yaml_load = (\<lambda>ls. case map_of ytab ls of None \<Rightarrow> Inl (LibraryError ''yaml'') | Some y \<Rightarrow> Inr y),
      yaml_dump = (\<lambda>y. [''yaml\<newline>'']),
      f90nml_read = (\<lambda>ls. case map_of ntab ls of None \<Rightarrow> Inl (LibraryError ''f90nml'') | Some n \<Rightarrow> Inr n),
      f90nml_patch = (\<lambda>ls g n v. Inr (ls @ [''! '' @ g @ '' '' @ n @ ''\<newline>''])),
      git_repo = demo_git_repo,
      git_clone = demo_git_clone,
      git_remote_rename = demo_git_remote_rename,
      git_remote_url = demo_git_remote_url,
      git_create_remote = demo_git_create_remote,
      git_checkout_b = demo_git_checkout_b,
      git_is_dirty = demo_git_is_dirty,
      git_rm = demo_git_rm,
      git_commit_all = demo_git_commit_all,
      shell = (\<lambda>cmd w. (0, w))\<rparr>"

text \<open>
  A template \<^verbatim>\<open>t\<close> in the working directory \<^verbatim>\<open>/h\<close>, with one committed namelist,
  and a specification file with one axis.
\<close>

definition demo_nml_text :: "string list" where
  "demo_nml_text = [''&dynamics_nml\<newline>'', ''  kdyn = 1\<newline>'', ''/\<newline>'']"

definition demo_nml :: nml where
  "demo_nml = [(''dynamics_nml'', [(''kdyn'', VInt 1), (''cosw'', VFloat 1), (''sinw'', VFloat 0)])]"

definition demo_sync_text :: "string list" where
  "demo_sync_text = [''#!/bin/bash\<newline>'', ''SYNCDIR=/g/data/sync/t\<newline>'', ''rsync $SYNCDIR\<newline>'']"

definition demo_config_text :: "string list" where
  "demo_config_text = [''queue: normal\<newline>'', ''jobname: t\<newline>'']"

definition demo_metadata_text :: "string list" where
  "demo_metadata_text = [''description: D\<newline>'']"

definition demo_metadata :: yaml where
  "demo_metadata =
     YMap [(''description'', YScalar (VStr ''D'')), (''notes'', YNull), (''keywords'', YSeq [])]"

definition demo_repo :: "(path \<times> string list) list \<Rightarrow> repo" where
  "demo_repo files =
     \<lparr>head_files = files, remotes = [(''origin'', ''https://example.org/t.git'')], branches = [''master'']\<rparr>"

definition demo_files :: "string list \<Rightarrow> (path \<times> string list) list" where
  "demo_files sync_text =
     [(''ice/cice_in.nml'', demo_nml_text), (''sync_data.sh'', sync_text),
      (''config.yaml'', demo_config_text), (''metadata.yaml'', demo_metadata_text)]"

definition demo_spec_text :: "string list" where
  "demo_spec_text = [''template: t\<newline>'']"

definition demo_spec :: "string \<Rightarrow> int \<Rightarrow> (string \<times> yaml) list \<Rightarrow> yaml" where
  "demo_spec startfrom nruns axes =
     YMap [(''template'', YScalar (VStr ''t'')), (''startfrom'', YScalar (VStr startfrom)),
           (''nruns'', YScalar (VInt nruns)),
           (''namelists'', YMap [(''ice/cice_in.nml'', YMap [(''dynamics_nml'', YMap axes)])])]"

definition demo_world :: "string list \<Rightarrow> (fskey \<times> node) list \<Rightarrow> world" where
  "demo_world sync_text extra =
     \<lparr>cwd = ''/h'',
      fs = extra @
           [([''h''], Dir), ([''h'', ''ensemble.yaml''], File demo_spec_text), ([''h'', ''t''], Dir)]
           @ map (\<lambda>(f, ls). (comps (join ''/h/t'' f), File ls)) (demo_files sync_text)
           @ [([''h'', ''t'', ''archive'', ''restart003''], Dir),
              ([''h'', ''t'', ''archive'', ''output003'', ''ice'', ''cice_in.nml''], File demo_nml_text)],
      stdout = [],
      cmds = [],
      repos = [([''h'', ''t''], demo_repo (demo_files sync_text))]\<rparr>"

definition demo_run :: "string \<Rightarrow> int \<Rightarrow> (string \<times> yaml) list \<Rightarrow> bool \<Rightarrow> world \<Rightarrow> (error + path list) \<times> world" where
  "demo_run startfrom nruns axes test w =
     ensemble (demo_env [(demo_spec_text, demo_spec startfrom nruns axes), (demo_metadata_text, demo_metadata)]
                 [(demo_nml_text, demo_nml)])
       ''ensemble.yaml'' test w"

text \<open>
  A smaller template, for runs of the whole script: the committed files are the namelist
  \<^verbatim>\<open>n\<close> with \<^verbatim>\<open>k = 1\<close> in group \<^verbatim>\<open>g\<close>, sync\_data.sh, config.yaml and metadata.yaml, or
  some of them; the specification file \<^verbatim>\<open>y\<close> asks for \<^verbatim>\<open>k = 2\<close>.
\<close>

definition mini_files :: "(path \<times> string list) list" where
  "mini_files =
     [(''n'', [''k=1\<newline>'']), (''sync_data.sh'', [''SYNCDIR=/s/t\<newline>'']),
      (''config.yaml'', [''jobname: t\<newline>'']), (''metadata.yaml'', [''m''])]"

definition mini_world :: "(path \<times> string list) list \<Rightarrow> (string \<times> string) list \<Rightarrow> world" where
  "mini_world files remote_list =
     \<lparr>cwd = ''/h'',
      fs = [([''h''], Dir), ([''h'', ''y''], File [''y'']), ([''h'', ''t''], Dir)]
           @ map (\<lambda>(f, ls). ([''h'', ''t'', f], File ls)) files,
      stdout = [],
      cmds = [],
      repos = [([''h'', ''t''], \<lparr>head_files = files, remotes = remote_list, branches = []\<rparr>)]\<rparr>"

definition mini_env :: "yaml \<Rightarrow> env" where
  "mini_env startfrom =
     demo_env
       [([''y''],
         YMap [(''template'', YScalar (VStr ''t'')), (''startfrom'', startfrom),
               (''nruns'', YScalar (VInt 0)),
               (''namelists'', YMap [(''n'', YMap [(''g'', YMap [(''k'', YSeq [YScalar (VInt 2)])])])])]),
        ([''m''],
         YMap [(''description'', YScalar (VStr ''d'')), (''notes'', YScalar (VStr ''x'')),
               (''keywords'', YSeq [])])]
       [([''k=1\<newline>''], [(''g'', [(''k'', VInt 1)])])]"

text \<open>A world with nothing but the working directory.\<close>

definition bare_world :: world where
  "bare_world = \<lparr>cwd = ''/h'', fs = [([''h''], Dir)], stdout = [], cmds = [], repos = []\<rparr>"

text \<open>
  A triple for reasoning about a program step by step: from a world satisfying \<open>P\<close>, a normal
  end satisfies \<open>Q\<close> and an exceptional end satisfies \<open>E\<close>.
\<close>

definition hoare ::
  "(world \<Rightarrow> bool) \<Rightarrow> 'a prog \<Rightarrow> ('a \<Rightarrow> world \<Rightarrow> bool) \<Rightarrow> (error \<Rightarrow> world \<Rightarrow> bool) \<Rightarrow> bool" where
  "hoare P m Q E = (\<forall>w. P w \<longrightarrow> (case m w of (Inr x, w') \<Rightarrow> Q x w' | (Inl e, w') \<Rightarrow> E e w'))"

definition anyhow :: "error \<Rightarrow> world \<Rightarrow> bool" where
  "anyhow e w = True"

text \<open>
  The directory of a variant is there after a build exactly when the build ended as
  \<open>Committed\<close> or \<open>AlreadyExists\<close>.
\<close>

definition settled :: "path \<Rightarrow> outcome \<times> locals \<Rightarrow> world \<Rightarrow> bool" where
  "settled exppath r w = (path_exists w exppath \<longleftrightarrow> fst r = Committed \<or> fst r = AlreadyExists)"


text \<open>A world holding a clone at \<^verbatim>\<open>/h/e\<close> with the given sync\_data.sh, and further entries.\<close>

definition clone_world :: "string list \<Rightarrow> (fskey \<times> node) list \<Rightarrow> world" where
  "clone_world sync_text extra =
     \<lparr>cwd = ''/h'',
      fs = [([''h'', ''e''], Dir),
            ([''h'', ''e'', ''sync_data.sh''], File sync_text),
            ([''h'', ''e'', ''config.yaml''], File demo_config_text)] @ extra,
      stdout = [], cmds = [], repos = []\<rparr>"

section \<open>Sequencing\<close>

lemma andthen_Inr: "m w = (Inr x, w') \<Longrightarrow> andthen m f w = f x w'"
  by (simp add: andthen_def)

lemma andthen_Inl: "m w = (Inl e, w') \<Longrightarrow> andthen m f w = (Inl e, w')"
  by (simp add: andthen_def)

lemma andthen_ret: "andthen (ret x) f = f x"
  by (simp add: andthen_def ret_def)

lemma andthen_raise: "andthen (raise e) f = raise e"
  by (simp add: andthen_def raise_def)

lemma andthen_print: "andthen (print s) f w = f () (w\<lparr>stdout := stdout w @ [s]\<rparr>)"
  by (simp add: andthen_def print_def)

lemma andthen_lift_Inr: "andthen (lift (Inr x)) f = f x"
  by (simp add: andthen_def lift_def)

lemma andthen_lift_Inl: "andthen (lift (Inl e)) f = raise e"
  by (simp add: andthen_def lift_def raise_def)

lemma andthen_cases:
  "andthen m f w = r \<Longrightarrow>
     (\<And>e w'. m w = (Inl e, w') \<Longrightarrow> r = (Inl e, w') \<Longrightarrow> P) \<Longrightarrow>
     (\<And>x w'. m w = (Inr x, w') \<Longrightarrow> f x w' = r \<Longrightarrow> P) \<Longrightarrow> P"
  by (cases "m w") (auto simp: andthen_def split: sum.splits)

lemma andthen_Inr_E:
  assumes "andthen m f w = (Inr y, w')"
  obtains x w1 where "m w = (Inr x, w1)" "f x w1 = (Inr y, w')"
  using assms by (cases "m w") (auto simp: andthen_def split: sum.splits)

section \<open>Triples\<close>

lemma hoareI:
  assumes "\<And>w x w'. P w \<Longrightarrow> m w = (Inr x, w') \<Longrightarrow> Q x w'"
    and "\<And>w e w'. P w \<Longrightarrow> m w = (Inl e, w') \<Longrightarrow> E e w'"
  shows "hoare P m Q E"
  unfolding hoare_def
proof (intro allI impI)
  fix w assume "P w"
  then show "case m w of (Inr x, w') \<Rightarrow> Q x w' | (Inl e, w') \<Rightarrow> E e w'"
    using assms by (cases "m w") (auto split: sum.splits)
qed

lemma hoare_Inr: "hoare P m Q E \<Longrightarrow> P w \<Longrightarrow> m w = (Inr x, w') \<Longrightarrow> Q x w'"
  by (auto simp: hoare_def)

lemma hoare_Inl: "hoare P m Q E \<Longrightarrow> P w \<Longrightarrow> m w = (Inl e, w') \<Longrightarrow> E e w'"
  by (auto simp: hoare_def)

lemma hoare_andthen:
  assumes "hoare P m R E" and "\<And>x. hoare (R x) (f x) Q E"
  shows "hoare P (andthen m f) Q E"
proof (rule hoareI)
  fix w y w' assume P: "P w" and run: "andthen m f w = (Inr y, w')"
  from run obtain x w1 where m: "m w = (Inr x, w1)" and f: "f x w1 = (Inr y, w')"
    by (rule andthen_Inr_E)
  from hoare_Inr [OF assms(1) P m] have "R x w1" .
  from hoare_Inr [OF assms(2) this f] show "Q y w'" .
next
  fix w e w' assume P: "P w" and run: "andthen m f w = (Inl e, w')"
  show "E e w'"
  proof (cases "m w")
    case (Pair r w1)
    show ?thesis
    proof (cases r)
      case (Inl e1)
      with Pair run have "e1 = e" "w1 = w'" by (simp_all add: andthen_def)
      with Pair Inl hoare_Inl [OF assms(1) P] show ?thesis by simp
    next
      case (Inr x)
      with Pair run have f: "f x w1 = (Inl e, w')" by (simp add: andthen_def)
      from hoare_Inr [OF assms(1) P] Pair Inr have "R x w1" by simp
      from hoare_Inl [OF assms(2) this f] show ?thesis .
    qed
  qed
qed

lemma hoare_weaken:
  assumes "hoare P' m Q' E'"
    and "\<And>w. P w \<Longrightarrow> P' w" and "\<And>x w. Q' x w \<Longrightarrow> Q x w" and "\<And>e w. E' e w \<Longrightarrow> E e w"
  shows "hoare P m Q E"
proof (rule hoareI)
  fix w x w' assume "P w" "m w = (Inr x, w')"
  then show "Q x w'"
    using hoare_Inr [OF assms(1)] assms(2,3) by blast
next
  fix w e w' assume "P w" "m w = (Inl e, w')"
  then show "E e w'"
    using hoare_Inl [OF assms(1)] assms(2,4) by blast
qed

lemma hoare_pre:
  assumes "hoare P' m Q E" and "\<And>w. P w \<Longrightarrow> P' w"
  shows "hoare P m Q E"
  by (rule hoare_weaken [OF assms(1)]) (use assms(2) in auto)

lemma hoare_post:
  assumes "hoare P m Q' E" and "\<And>x w. Q' x w \<Longrightarrow> Q x w"
  shows "hoare P m Q E"
  by (rule hoare_weaken [OF assms(1)]) (use assms(2) in auto)

lemma hoare_ret: "(\<And>w. P w \<Longrightarrow> Q x w) \<Longrightarrow> hoare P (ret x) Q E"
  by (simp add: hoare_def ret_def)

lemma hoare_raise: "(\<And>w. P w \<Longrightarrow> E e w) \<Longrightarrow> hoare P (raise e) Q E"
  by (simp add: hoare_def raise_def)

lemma hoare_lift:
  "(\<And>w x. P w \<Longrightarrow> r = Inr x \<Longrightarrow> Q x w) \<Longrightarrow> (\<And>w e. P w \<Longrightarrow> r = Inl e \<Longrightarrow> E e w) \<Longrightarrow>
   hoare P (lift r) Q E"
  by (cases r) (simp_all add: hoare_def lift_def)

lemma hoare_print:
  "(\<And>w. P w \<Longrightarrow> Q () (w\<lparr>stdout := stdout w @ [s]\<rparr>)) \<Longrightarrow> hoare P (print s) Q E"
  by (simp add: hoare_def print_def)

lemma hoare_pure:
  assumes "\<And>w. \<exists>r. m w = (r, w)"
    and "\<And>w x. P w \<Longrightarrow> Q x w" and "\<And>w e. P w \<Longrightarrow> E e w"
  shows "hoare P m Q E"
proof (rule hoareI)
  fix w x w' assume "P w" "m w = (Inr x, w')"
  with assms(1) [of w] assms(2) show "Q x w'" by auto
next
  fix w e w' assume "P w" "m w = (Inl e, w')"
  with assms(1) [of w] assms(3) show "E e w'" by auto
qed

lemma hoare_cond:
  "(b \<Longrightarrow> hoare P m Q E) \<Longrightarrow> (\<not> b \<Longrightarrow> hoare P n Q E) \<Longrightarrow> hoare P (if b then m else n) Q E"
  by simp

lemma hoare_state:
  assumes "\<And>w0. hoare (\<lambda>w. w = w0 \<and> P w) (f w0) Q E"
  shows "hoare P (\<lambda>w. f w w) Q E"
proof (rule hoareI)
  fix w x w' assume "P w" "f w w = (Inr x, w')"
  then show "Q x w'"
    using hoare_Inr [OF assms [of w], of w x w'] by simp
next
  fix w e w' assume "P w" "f w w = (Inl e, w')"
  then show "E e w'"
    using hoare_Inl [OF assms [of w], of w e w'] by simp
qed

lemma hoare_anyhow [simp]: "anyhow e w"
  by (simp add: anyhow_def)

section \<open>Paths and their components\<close>

lemma endswith_slash: "endswith s ''/'' \<longleftrightarrow> s \<noteq> [] \<and> last s = CHR ''/''"
proof (cases s rule: rev_cases)
  case Nil
  then show ?thesis by (simp add: endswith_def)
next
  case (snoc ys y)
  then show ?thesis by (auto simp: endswith_def suffix_def)
qed

lemma startswith_slash: "startswith s ''/'' \<longleftrightarrow> s \<noteq> [] \<and> hd s = CHR ''/''"
  by (cases s) (auto simp: startswith_def)

lemma split_sep_nonempty [simp]: "split_sep p \<noteq> []"
  by (induction p) (auto split: list.splits)

lemma split_sep_simple: "CHR ''/'' \<notin> set s \<Longrightarrow> split_sep s = [s]"
  by (induction s) auto

lemma split_sep_slash: "split_sep (x @ CHR ''/'' # y) = split_sep x @ split_sep y"
proof (induction x)
  case Nil
  show ?case by simp
next
  case (Cons c cs)
  show ?case
  proof (cases "c = CHR ''/''")
    case True
    with Cons show ?thesis by simp
  next
    case False
    obtain u us where u: "split_sep cs = u # us"
      by (cases "split_sep cs") auto
    with False Cons show ?thesis by simp
  qed
qed


lemma norm_comps_append:
  "norm_comps r acc (xs @ ys) = norm_comps r (norm_comps r acc xs) ys"
  by (induction xs arbitrary: acc) auto

lemma norm_comps_simple:
  "n \<noteq> [] \<Longrightarrow> n \<noteq> ''.'' \<Longrightarrow> n \<noteq> ''..'' \<Longrightarrow> norm_comps r acc [n] = acc @ [n]"
  by simp

lemma norm_comps_empty: "norm_comps r acc [[]] = acc"
  by simp

text \<open>A plain file name: not empty, no separator, neither \<^verbatim>\<open>.\<close> nor \<^verbatim>\<open>..\<close>.\<close>

lemma comps_join:
  assumes "n \<noteq> []" "CHR ''/'' \<notin> set n" "n \<noteq> ''.''" "n \<noteq> ''..''"
  shows "comps (join e n) = comps e @ [n]"
proof -
  have nabs: "\<not> startswith n ''/''"
    using assms by (cases n) (auto simp: startswith_def)
  show ?thesis
  proof (cases "e = []")
    case True
    with assms nabs show ?thesis
      by (simp add: join_def comps_def split_sep_simple)
  next
    case False
    show ?thesis
    proof (cases "endswith e ''/''")
      case True
      then obtain e' where e: "e = e' @ ''/''"
        by (auto simp: endswith_def suffix_def)
      have "split_sep (e' @ CHR ''/'' # n) = split_sep e' @ [n]"
        using assms by (simp add: split_sep_slash split_sep_simple)
      moreover have "split_sep (e' @ ''/'') = split_sep e' @ [[]]"
        using split_sep_slash [of e' "[]"] by simp
      ultimately show ?thesis
        using assms nabs True e by (simp add: join_def comps_def norm_comps_append)
    next
      case nslash: False
      have "split_sep (e @ CHR ''/'' # n) = split_sep e @ [n]"
        using assms by (simp add: split_sep_slash split_sep_simple)
      with assms nabs nslash False show ?thesis
        by (simp add: join_def comps_def norm_comps_append)
    qed
  qed
qed

lemma isabs_join: "\<not> startswith n ''/'' \<Longrightarrow> isabs (join e n) = isabs e"
  by (cases e) (auto simp: join_def isabs_def startswith_def)

lemma join_assoc:
  "\<not> startswith e ''/'' \<Longrightarrow> \<not> startswith n ''/'' \<Longrightarrow> n \<noteq> [] \<Longrightarrow> join c (join e n) = join (join c e) n"
  by (cases "e = []") (auto simp: join_def endswith_slash startswith_slash)

lemma key_join:
  assumes "n \<noteq> []" "CHR ''/'' \<notin> set n" "n \<noteq> ''.''" "n \<noteq> ''..''"
  shows "key w (join e n) = key w e @ [n]"
proof -
  have nabs: "\<not> startswith n ''/''"
    using assms by (cases n) (auto simp: startswith_def)
  show ?thesis
  proof (cases "isabs e")
    case True
    with nabs assms show ?thesis
      by (simp add: key_def isabs_join comps_join)
  next
    case False
    then have "join (cwd w) (join e n) = join (join (cwd w) e) n"
      using nabs assms(1) by (simp add: join_assoc isabs_def)
    with False nabs assms show ?thesis
      by (simp add: key_def isabs_join comps_join)
  qed
qed

lemma join_suffix: "n \<noteq> [] \<Longrightarrow> join e n @ s = join e (n @ s)"
  by (cases n) (auto simp: join_def startswith_def)

lemma key_abs: "isabs p \<Longrightarrow> key w p = comps p"
  by (simp add: key_def)

lemma isabs_join_abs: "isabs c \<Longrightarrow> \<not> startswith x ''/'' \<Longrightarrow> isabs (join c x)"
  by (simp add: isabs_join)









section \<open>The file-system operations\<close>

lemma key_update [simp]:
  "key (w\<lparr>fs := x\<rparr>) p = key w p"
  "key (w\<lparr>stdout := y\<rparr>) p = key w p"
  "key (w\<lparr>cmds := z\<rparr>) p = key w p"
  by (simp_all add: key_def)

lemma map_of_put: "map_of (put k n es) q = (if q = k then Some n else map_of es q)"
proof -
  have "map_of (filter (\<lambda>(a, b). a \<noteq> k) es) q = (if q = k then None else map_of es q)"
    by (induction es) auto
  then show ?thesis by (simp add: put_def)
qed

lemma map_of_del:
  "map_of (filter (\<lambda>(a, b). a \<noteq> k) es) q = (if q = k then None else map_of es q)"
  by (induction es) auto

lemma map_of_rmtree:
  "map_of (filter (\<lambda>(a, b). \<not> prefix k a) es) q = (if prefix k q then None else map_of es q)"
  by (induction es) auto

lemma node_at_File: "node_at es k = Some (File ls) \<longleftrightarrow> map_of es k = Some (File ls)"
  by (auto simp: node_at_def split: option.splits if_splits)

lemma node_at_Link: "node_at es k = Some (Link t) \<longleftrightarrow> map_of es k = Some (Link t)"
  by (auto simp: node_at_def split: option.splits if_splits)

lemma node_at_entry: "map_of es k = Some n \<Longrightarrow> node_at es k = Some n"
  by (simp add: node_at_def)

lemma node_at_None:
  assumes "node_at es k = None"
  shows "k \<noteq> []" and "\<And>q. prefix k q \<Longrightarrow> map_of es q = None"
proof -
  from assms have m: "map_of es k = None" and ne: "k \<noteq> []"
    and nx: "\<not> list_ex (\<lambda>(q, n). strict_prefix k q) es"
    by (auto simp: node_at_def split: option.splits if_splits)
  show "k \<noteq> []" by (rule ne)
  fix q assume pq: "prefix k q"
  show "map_of es q = None"
  proof (cases "q = k")
    case True
    with m show ?thesis by simp
  next
    case False
    with pq have sp: "strict_prefix k q" by (simp add: strict_prefix_def)
    show ?thesis
    proof (rule ccontr)
      assume "map_of es q \<noteq> None"
      then obtain n where "map_of es q = Some n" by auto
      then have "(q, n) \<in> set es" by (rule map_of_SomeD)
      with sp nx show False by (auto simp: list_ex_iff)
    qed
  qed
qed

lemma resolve_plain: "\<forall>t. map_of es k \<noteq> Some (Link t) \<Longrightarrow> resolve es k = Some k"
proof -
  assume plain: "\<forall>t. map_of es k \<noteq> Some (Link t)"
  have "follow (Suc n) es k = Some k" for n
    using plain by (auto split: option.splits node.splits)
  from this [of 39] show "resolve es k = Some k"
    by (simp add: resolve_def)
qed

lemma has_dir_exists: "has_dir (key w p) w \<Longrightarrow> path_exists w p"
  by (simp add: has_dir_def path_exists_def resolve_plain node_at_entry)

text \<open>What each operation does to the world when it returns, and when it raises.\<close>

lemma read_lines_Inr:
  assumes "read_lines p w = (Inr ls, w')"
  shows "w' = w" and "map_of (fs w) (key w p) = Some (File ls)"
  using assms
  by (auto simp: read_lines_def node_at_File [symmetric] split: option.splits node.splits)

lemma read_lines_same: "read_lines p w = (r, w') \<Longrightarrow> w' = w"
  by (auto simp: read_lines_def split: option.splits node.splits)

lemma read_lines_file: "map_of (fs w) (key w p) = Some (File ls) \<Longrightarrow> read_lines p w = (Inr ls, w)"
  by (simp add: read_lines_def node_at_entry)

lemma write_lines_Inr:
  assumes "write_lines p ls w = (Inr x, w')"
  shows "w' = w\<lparr>fs := put (key w p) (File ls) (fs w)\<rparr>"
    and "node_at (fs w) (key w p) \<noteq> Some Dir"
    and "dir_at (fs w) (butlast (key w p))"
  using assms
  by (auto simp: write_lines_def Let_def split: option.splits node.splits if_splits)

lemma write_lines_Inl: "write_lines p ls w = (Inl e, w') \<Longrightarrow> w' = w"
  by (auto simp: write_lines_def Let_def split: option.splits node.splits if_splits)

lemma write_lines_again:
  assumes "map_of (fs w) (key w p) = Some (File old)" "dir_at (fs w) (butlast (key w p))"
  shows "write_lines p ls w = (Inr (), w\<lparr>fs := put (key w p) (File ls) (fs w)\<rparr>)"
  using assms by (simp add: write_lines_def Let_def node_at_entry)



lemma os_rename_Inl: "os_rename src dst w = (Inl e, w') \<Longrightarrow> w' = w"
  by (auto simp: os_rename_def Let_def split: option.splits node.splits if_splits)

lemma os_rename_file_Inr:
  assumes "map_of (fs w) (key w src) = Some (File ls)" "os_rename src dst w = (Inr x, w')"
  shows "w' = w\<lparr>fs := put (key w dst) (File ls) (filter (\<lambda>(q, m). q \<noteq> key w src) (fs w))\<rparr>"
    and "node_at (fs w) (key w dst) \<noteq> Some Dir"
  using assms
  by (auto simp: os_rename_def Let_def node_at_entry split: if_splits)

lemma os_symlink_Inr:
  assumes "os_symlink target linkpath w = (Inr x, w')"
  shows "w' = w\<lparr>fs := put (key w linkpath) (Link target) (fs w)\<rparr>"
    and "node_at (fs w) (key w linkpath) = None"
    and "dir_at (fs w) (butlast (key w linkpath))"
  using assms
  by (auto simp: os_symlink_def Let_def split: if_splits)

lemma os_makedirs_Inr:
  assumes "os_makedirs p w = (Inr x, w')"
  shows "w' = w\<lparr>fs := put (key w p) Dir (fs w)\<rparr>"
    and "node_at (fs w) (key w p) = None"
  using assms
  by (auto simp: os_makedirs_def Let_def split: if_splits)

lemma rmtree_Inr:
  assumes "rmtree p w = (Inr x, w')"
  shows "w' = w\<lparr>fs := filter (\<lambda>(q, m). \<not> prefix (key w p) q) (fs w)\<rparr>"
    and "key w p \<noteq> []"
  using assms
  by (auto simp: rmtree_def Let_def split: option.splits node.splits if_splits)

lemma rmtree_dir:
  assumes "node_at (fs w) (key w p) = Some Dir" "key w p \<noteq> []"
  shows "rmtree p w = (Inr (), w\<lparr>fs := filter (\<lambda>(q, m). \<not> prefix (key w p) q) (fs w)\<rparr>)"
  using assms by (simp add: rmtree_def Let_def)

lemma rmtree_gone:
  assumes "rmtree p w = (Inr x, w')"
  shows "\<not> path_exists w' p"
proof -
  let ?k = "key w p"
  from rmtree_Inr [OF assms] have w': "w' = w\<lparr>fs := filter (\<lambda>(q, m). \<not> prefix ?k q) (fs w)\<rparr>"
    and ne: "?k \<noteq> []" by auto
  have none: "map_of (fs w') q = None" if "prefix ?k q" for q
    using that w' by (simp add: map_of_rmtree)
  have "\<not> list_ex (\<lambda>(q, n). strict_prefix ?k q) (fs w')"
  proof
    assume "list_ex (\<lambda>(q, n). strict_prefix ?k q) (fs w')"
    then obtain q n where "(q, n) \<in> set (fs w')" "strict_prefix ?k q"
      by (auto simp: list_ex_iff)
    with w' show False by (auto simp: strict_prefix_def)
  qed
  with none [of ?k] ne have "node_at (fs w') ?k = None"
    by (simp add: node_at_def)
  moreover have "resolve (fs w') ?k = Some ?k"
    using none [of ?k] by (simp add: resolve_plain)
  moreover have "key w' p = ?k" using w' by simp
  ultimately show ?thesis by (simp add: path_exists_def)
qed

lemma shutil_copy_Inr:
  assumes "shutil_copy src dst w = (Inr x, w')"
  obtains q ls where "w' = w\<lparr>fs := put (key w q) (File ls) (fs w)\<rparr>"
    and "node_at (fs w) (key w q) \<noteq> Some Dir"
proof -
  from assms obtain ls w1 where r: "read_lines src w = (Inr ls, w1)"
    and c: "write_lines (if is_dir w1 dst then join dst (basename src) else dst) ls w1 = (Inr x, w')"
    unfolding shutil_copy_def by (rule andthen_Inr_E)
  from read_lines_Inr(1) [OF r] have "w1 = w" .
  with write_lines_Inr(1,2) [OF c] that show ?thesis by blast
qed

section \<open>Rewriting a file through a temporary file\<close>

lemma has_dir_dir_at: "has_dir k w \<Longrightarrow> dir_at (fs w) k"
  by (simp add: has_dir_def dir_at_def resolve_plain node_at_entry)

lemma has_dir_put: "has_dir k w \<Longrightarrow> q \<noteq> k \<Longrightarrow> has_dir k (w\<lparr>fs := put q n (fs w)\<rparr>)"
  by (simp add: has_dir_def map_of_put)

lemma has_dir_del:
  "has_dir k w \<Longrightarrow> q \<noteq> k \<Longrightarrow> has_dir k (w\<lparr>fs := filter (\<lambda>(a, b). a \<noteq> q) (fs w)\<rparr>)"
  by (simp add: has_dir_def map_of_del)

lemma has_dir_stdout [simp]: "has_dir k (w\<lparr>stdout := s\<rparr>) = has_dir k w"
  by (simp add: has_dir_def)

lemma write_lines_ok:
  assumes "node_at (fs w) (key w p) = None \<or> (\<exists>old. map_of (fs w) (key w p) = Some (File old))"
    and "dir_at (fs w) (butlast (key w p))"
  shows "write_lines p ls w = (Inr (), w\<lparr>fs := put (key w p) (File ls) (fs w)\<rparr>)"
  using assms by (auto simp: write_lines_def Let_def node_at_entry)

lemma os_rename_file_ok:
  assumes "map_of (fs w) (key w src) = Some (File ls)"
    and "node_at (fs w) (key w dst) \<noteq> Some Dir"
    and "dir_at (fs w) (butlast (key w dst))"
  shows "os_rename src dst w =
           (Inr (), w\<lparr>fs := put (key w dst) (File ls) (filter (\<lambda>(q, m). q \<noteq> key w src) (fs w))\<rparr>)"
  using assms by (simp add: os_rename_def Let_def node_at_entry)

text \<open>
  The pattern of lines 113 to 122 and 173 to 180: open the temporary file, read the original,
  write the new lines, rename. Whatever happens, the working directory stays; on a normal end
  the original holds the new lines and the temporary entry is gone; on an exception the
  original's entry is what it was.
\<close>

lemma rewrite_run:
  assumes neq: "key w tmp \<noteq> key w p"
    and run: "andthen (write_lines tmp []) (\<lambda>_.
              andthen (read_lines p) (\<lambda>rf.
              andthen (write_lines tmp (g rf)) (\<lambda>_.
              andthen (os_rename tmp p) (\<lambda>_. ret (h rf))))) w = (r, w')"
  shows "cwd w' = cwd w \<and>
         (case r of
            Inr y \<Rightarrow>
              (\<exists>rf. y = h rf \<and> map_of (fs w) (key w p) = Some (File rf)
                 \<and> map_of (fs w') (key w p) = Some (File (g rf))
                 \<and> map_of (fs w') (key w tmp) = None
                 \<and> (\<forall>q. q \<noteq> key w p \<and> q \<noteq> key w tmp \<longrightarrow> map_of (fs w') q = map_of (fs w) q))
          | Inl e \<Rightarrow> map_of (fs w') (key w p) = map_of (fs w) (key w p))"
proof (cases "write_lines tmp [] w")
  case (Pair r1 w1)
  show ?thesis
  proof (cases r1)
    case (Inl e)
    with Pair run have "r = Inl e" "w' = w1" by (simp_all add: andthen_def)
    moreover from Pair Inl have "w1 = w" by (simp add: write_lines_Inl)
    ultimately show ?thesis by simp
  next
    case (Inr u)
    with Pair have w1: "w1 = w\<lparr>fs := put (key w tmp) (File []) (fs w)\<rparr>"
      by (simp add: write_lines_Inr(1))
    have same1: "map_of (fs w1) (key w p) = map_of (fs w) (key w p)"
      using w1 neq by (simp add: map_of_put)
    from Pair Inr run have run2:
      "andthen (read_lines p) (\<lambda>rf.
         andthen (write_lines tmp (g rf)) (\<lambda>_.
         andthen (os_rename tmp p) (\<lambda>_. ret (h rf)))) w1 = (r, w')"
      by (simp add: andthen_def)
    show ?thesis
    proof (cases "read_lines p w1")
      case (Pair r2 w2)
      then have w2: "w2 = w1" by (rule read_lines_same)
      show ?thesis
      proof (cases r2)
        case (Inl e)
        with Pair run2 w2 have "r = Inl e" "w' = w1" by (simp_all add: andthen_def)
        with same1 w1 show ?thesis by simp
      next
        case (Inr rf)
        with Pair w2 have "map_of (fs w1) (key w1 p) = Some (File rf)"
          by (simp add: read_lines_Inr(2))
        with w1 same1 have orig: "map_of (fs w) (key w p) = Some (File rf)" by simp
        from Pair Inr w2 run2 have run3:
          "andthen (write_lines tmp (g rf)) (\<lambda>_.
             andthen (os_rename tmp p) (\<lambda>_. ret (h rf))) w1 = (r, w')"
          by (simp add: andthen_def)
        show ?thesis
        proof (cases "write_lines tmp (g rf) w1")
          case (Pair r3 w3)
          show ?thesis
          proof (cases r3)
            case (Inl e)
            with Pair run3 have "r = Inl e" "w' = w3" by (simp_all add: andthen_def)
            moreover from Pair Inl have "w3 = w1" by (simp add: write_lines_Inl)
            ultimately show ?thesis using same1 w1 by simp
          next
            case (Inr u3)
            with Pair have "write_lines tmp (g rf) w1 = (Inr u3, w3)" by simp
            from write_lines_Inr(1) [OF this] w1
            have w3: "w3 = w1\<lparr>fs := put (key w tmp) (File (g rf)) (fs w1)\<rparr>"
              by simp
            have tmp3: "map_of (fs w3) (key w3 tmp) = Some (File (g rf))"
              using w3 w1 by (simp add: map_of_put)
            have same3: "map_of (fs w3) q = map_of (fs w) q" if "q \<noteq> key w tmp" for q
              using that w3 w1 by (simp add: map_of_put)
            from Pair Inr run3 have run4:
              "andthen (os_rename tmp p) (\<lambda>_. ret (h rf)) w3 = (r, w')"
              by (simp add: andthen_def)
            show ?thesis
            proof (cases "os_rename tmp p w3")
              case (Pair r4 w4)
              show ?thesis
              proof (cases r4)
                case (Inl e)
                with Pair run4 have "r = Inl e" "w' = w4" by (simp_all add: andthen_def)
                moreover from Pair Inl have "w4 = w3" by (simp add: os_rename_Inl)
                ultimately show ?thesis using same3 [of "key w p"] neq w3 w1 by simp
              next
                case (Inr u4)
                with Pair run4 have r: "r = Inr (h rf)" and w': "w' = w4"
                  by (simp_all add: andthen_def ret_def)
                from Pair Inr os_rename_file_Inr(1) [OF tmp3] have
                  "w4 = w3\<lparr>fs := put (key w3 p) (File (g rf))
                                   (filter (\<lambda>(q, m). q \<noteq> key w3 tmp) (fs w3))\<rparr>"
                  by simp
                with w3 w1 have w4: "w4 = w3\<lparr>fs := put (key w p) (File (g rf))
                                   (filter (\<lambda>(q, m). q \<noteq> key w tmp) (fs w3))\<rparr>"
                  by simp
                have a: "map_of (fs w4) (key w p) = Some (File (g rf))"
                  using w4 by (simp add: map_of_put)
                have b: "map_of (fs w4) (key w tmp) = None"
                  using w4 neq by (simp add: map_of_put map_of_del)
                have c: "map_of (fs w4) q = map_of (fs w) q"
                  if "q \<noteq> key w p \<and> q \<noteq> key w tmp" for q
                  using that w4 same3 [of q] by (simp add: map_of_put map_of_del)
                have d: "cwd w4 = cwd w" using w4 w3 w1 by simp
                from r w' orig a b c d show ?thesis by auto
              qed
            qed
          qed
        qed
      qed
    qed
  qed
qed

lemma sync_lines_out:
  "fst (sync_lines expname rf sd) =
     map (\<lambda>line. if startswith line ''SYNCDIR=''
                  then ''SYNCDIR='' @ join (dirname (drop (length ''SYNCDIR='') line)) expname @ ''\<newline>''
                  else line) rf"
  by (induction rf arbitrary: sd) (simp_all add: Let_def case_prod_beta)

lemma sync_lines_syncdir:
  "snd (sync_lines expname rf sd) =
     (case filter (\<lambda>line. startswith line ''SYNCDIR='') rf of
        [] \<Rightarrow> sd
      | xs \<Rightarrow> Some (join (dirname (drop (length ''SYNCDIR='') (last xs))) expname))"
  by (induction rf arbitrary: sd) (simp_all add: Let_def case_prod_beta split: list.splits)

lemma sync_lines_none:
  "\<forall>line \<in> set rf. \<not> startswith line ''SYNCDIR='' \<Longrightarrow> sync_lines expname rf sd = (rf, sd)"
  by (induction rf) auto

lemma set_syncdir_shape:
  "set_syncdir exppath expname loc =
     andthen (write_lines (join exppath ''sync_data.sh'' @ ''_tmp'') []) (\<lambda>_.
     andthen (read_lines (join exppath ''sync_data.sh'')) (\<lambda>rf.
     andthen (write_lines (join exppath ''sync_data.sh'' @ ''_tmp'')
                (fst (sync_lines expname rf (syncdir loc)))) (\<lambda>_.
     andthen (os_rename (join exppath ''sync_data.sh'' @ ''_tmp'') (join exppath ''sync_data.sh''))
       (\<lambda>_. ret (loc\<lparr>syncdir := snd (sync_lines expname rf (syncdir loc))\<rparr>)))))"
  by (simp add: set_syncdir_def Let_def case_prod_beta)


lemma tmp_key_neq:
  assumes "n \<noteq> []" "CHR ''/'' \<notin> set n" "n \<noteq> ''.''" "n \<noteq> ''..''"
  shows "key w (join e n @ ''_tmp'') \<noteq> key w (join e n)"
proof -
  have "key w (join e n @ ''_tmp'') = key w e @ [n @ ''_tmp'']"
    using assms by (simp add: join_suffix key_join append_eq_Cons_conv)
  moreover have "key w (join e n) = key w e @ [n]"
    using assms by (simp add: key_join)
  ultimately show ?thesis by simp
qed

lemma tmp_key:
  assumes "n \<noteq> []" "CHR ''/'' \<notin> set n" "n \<noteq> ''.''" "n \<noteq> ''..''"
  shows "key w (join e n @ ''_tmp'') = key w e @ [n @ ''_tmp'']"
  using assms by (simp add: join_suffix key_join append_eq_Cons_conv)

section \<open>Run reconciliation\<close>





section \<open>The two checks before anything is created\<close>

text \<open>
  C6. When the target directory, \<^verbatim>\<open>join(cwd, template_name_value)\<close>, exists at the start of
  the build, the build ends at once as \<open>AlreadyExists\<close>: the path is appended to the list
  \<^verbatim>\<open>ensemble\<close>, one line is printed, and nothing else in the world changes (no clone,
  no patch, no commit).
\<close>

theorem existing_directory_is_kept:
  assumes "path_exists w (join (cwd w) (template @ ''_'' @ name @ ''_'' @ py_str env v))"
  shows "build_variant env test template templatepath startfrom fname grp name turningangle v loc w =
           (Inr (AlreadyExists,
                 loc\<lparr>ensemble_paths := ensemble_paths loc
                        @ [join (cwd w) (template @ ''_'' @ name @ ''_'' @ py_str env v)]\<rparr>),
            w\<lparr>stdout := stdout w
                 @ [''\<newline> -- not creating ''
                    @ relpath (cwd w) (join (cwd w) (template @ ''_'' @ name @ ''_'' @ py_str env v)) (cwd w)
                    @ '' - already exists'']\<rparr>)"
  using assms
  by (simp add: build_variant_def andthen_def getcwd_def exists_def print_def ret_def Let_def)

theorem existing_directory_is_kept_witness:
  "path_exists (bare_world\<lparr>fs := [([''h'', ''t_kdyn_2''], Dir)]\<rparr>)
     (join (cwd (bare_world\<lparr>fs := [([''h'', ''t_kdyn_2''], Dir)]\<rparr>))
        (''t'' @ ''_'' @ ''kdyn'' @ ''_'' @ py_str (demo_env [] []) (VInt 2)))
   \<and> fst (build_variant (demo_env [] []) True ''t'' ''/h/t'' ''003'' ''ice/cice_in.nml''
            ''dynamics_nml'' ''kdyn'' False (VInt 2) no_locals
            (bare_world\<lparr>fs := [([''h'', ''t_kdyn_2''], Dir)]\<rparr>))
       = Inr (AlreadyExists, no_locals\<lparr>ensemble_paths := [''/h/t_kdyn_2'']\<rparr>)"
proof -
  have ex: "path_exists (bare_world\<lparr>fs := [([''h'', ''t_kdyn_2''], Dir)]\<rparr>)
     (join (cwd (bare_world\<lparr>fs := [([''h'', ''t_kdyn_2''], Dir)]\<rparr>))
        (''t'' @ ''_'' @ ''kdyn'' @ ''_'' @ py_str (demo_env [] []) (VInt 2)))"
    by code_simp
  note eq = existing_directory_is_kept [OF ex, of True "''/h/t''" "''003''" "''ice/cice_in.nml''"
      "''dynamics_nml''" False no_locals]
  have "fst (build_variant (demo_env [] []) True ''t'' ''/h/t'' ''003'' ''ice/cice_in.nml''
            ''dynamics_nml'' ''kdyn'' False (VInt 2) no_locals
            (bare_world\<lparr>fs := [([''h'', ''t_kdyn_2''], Dir)]\<rparr>))
       = Inr (AlreadyExists, no_locals\<lparr>ensemble_paths := [''/h/t_kdyn_2'']\<rparr>)"
    unfolding eq by code_simp
  with ex show ?thesis by blast
qed

text \<open>
  C4, as amended. When the target directory does not exist yet and the template's namelist
  holds a value equal (Python's \<^verbatim>\<open>==\<close>) to the requested one, or, on the turning-angle
  axis, both \<^verbatim>\<open>cosw\<close> and \<^verbatim>\<open>sinw\<close> equal to the cosine and sine of the angle, the build
  ends as \<open>IdenticalToTemplate\<close>: one line is printed and nothing else in the world changes
  (no directory, no clone), and no path is added to the list.
\<close>

theorem identical_value_creates_nothing:
  assumes "\<not> path_exists w (join (cwd w) (template @ ''_'' @ name @ ''_'' @ py_str env v))"
    and "node_at (fs w) (key w (join templatepath fname)) = Some (File ls)"
    and "f90nml_read env ls = Inr nml"
    and "if turningangle
         then \<exists>rad a b. to_radians env v = Inr rad
                \<and> nml_get nml grp ''cosw'' = Inr a \<and> py_eq a (VFloat (np_cos env rad))
                \<and> nml_get nml grp ''sinw'' = Inr b \<and> py_eq b (VFloat (np_sin env rad))
         else \<exists>a. nml_get nml grp name = Inr a \<and> py_eq a v"
  shows "\<exists>loc'.
           build_variant env test template templatepath startfrom fname grp name turningangle v loc w =
             (Inr (IdenticalToTemplate, loc'),
              w\<lparr>stdout := stdout w
                   @ [''\<newline> -- not creating ''
                      @ relpath (cwd w) (join (cwd w) (template @ ''_'' @ name @ ''_'' @ py_str env v)) (cwd w)
                      @ '' - parameters are identical to '' @ template]\<rparr>)
           \<and> ensemble_paths loc' = ensemble_paths loc"
proof (cases turningangle)
  case True
  with assms(4) obtain rad a b where
    "to_radians env v = Inr rad" "nml_get nml grp ''cosw'' = Inr a"
    "py_eq a (VFloat (np_cos env rad))" "nml_get nml grp ''sinw'' = Inr b"
    "py_eq b (VFloat (np_sin env rad))"
    by auto
  with True assms(1-3) show ?thesis
    by (simp add: build_variant_def check_identical_def andthen_def getcwd_def exists_def
                  print_def ret_def lift_def read_lines_def Let_def)
next
  case False
  with assms(4) obtain a where "nml_get nml grp name = Inr a" "py_eq a v"
    by auto
  with False assms(1-3) show ?thesis
    by (simp add: build_variant_def check_identical_def andthen_def getcwd_def exists_def
                  print_def ret_def lift_def read_lines_def Let_def)
qed

theorem identical_value_creates_nothing_witness:
  "\<not> path_exists (demo_world demo_sync_text [])
       (join (cwd (demo_world demo_sync_text [])) (''t'' @ ''_'' @ ''kdyn'' @ ''_'' @ py_str (demo_env [] [(demo_nml_text, demo_nml)]) (VInt 1)))
   \<and> node_at (fs (demo_world demo_sync_text [])) (key (demo_world demo_sync_text []) (join ''/h/t'' ''ice/cice_in.nml''))
       = Some (File demo_nml_text)
   \<and> f90nml_read (demo_env [] [(demo_nml_text, demo_nml)]) demo_nml_text = Inr demo_nml
   \<and> nml_get demo_nml ''dynamics_nml'' ''kdyn'' = Inr (VInt 1) \<and> py_eq (VInt 1) (VInt 1)
   \<and> (\<exists>loc'. fst (build_variant (demo_env [] [(demo_nml_text, demo_nml)]) True ''t'' ''/h/t'' ''003''
                     ''ice/cice_in.nml'' ''dynamics_nml'' ''kdyn'' False (VInt 1) no_locals
                     (demo_world demo_sync_text []))
                = Inr (IdenticalToTemplate, loc')
              \<and> ensemble_paths loc' = [])"
proof -
  have h1: "\<not> path_exists (demo_world demo_sync_text [])
       (join (cwd (demo_world demo_sync_text [])) (''t'' @ ''_'' @ ''kdyn'' @ ''_'' @ py_str (demo_env [] [(demo_nml_text, demo_nml)]) (VInt 1)))"
    by code_simp
  have h2: "node_at (fs (demo_world demo_sync_text [])) (key (demo_world demo_sync_text []) (join ''/h/t'' ''ice/cice_in.nml''))
       = Some (File demo_nml_text)"
    by code_simp
  have h3: "f90nml_read (demo_env [] [(demo_nml_text, demo_nml)]) demo_nml_text = Inr demo_nml"
    by code_simp
  have h4: "nml_get demo_nml ''dynamics_nml'' ''kdyn'' = Inr (VInt 1)" and h5: "py_eq (VInt 1) (VInt 1)"
    by code_simp+
  have h45: "if False
         then \<exists>rad a b. to_radians (demo_env [] [(demo_nml_text, demo_nml)]) (VInt 1) = Inr rad
                \<and> nml_get demo_nml ''dynamics_nml'' ''cosw'' = Inr a \<and> py_eq a (VFloat (np_cos (demo_env [] [(demo_nml_text, demo_nml)]) rad))
                \<and> nml_get demo_nml ''dynamics_nml'' ''sinw'' = Inr b \<and> py_eq b (VFloat (np_sin (demo_env [] [(demo_nml_text, demo_nml)]) rad))
         else \<exists>a. nml_get demo_nml ''dynamics_nml'' ''kdyn'' = Inr a \<and> py_eq a (VInt 1)"
    using h4 h5 by simp
  from identical_value_creates_nothing [OF h1 h2 h3 h45, where test = True and startfrom = "''003''"
      and loc = no_locals]
  obtain loc' where
    "build_variant (demo_env [] [(demo_nml_text, demo_nml)]) True ''t'' ''/h/t'' ''003''
        ''ice/cice_in.nml'' ''dynamics_nml'' ''kdyn'' False (VInt 1) no_locals (demo_world demo_sync_text [])
      = (Inr (IdenticalToTemplate, loc'),
         (demo_world demo_sync_text [])\<lparr>stdout := stdout (demo_world demo_sync_text [])
            @ [''\<newline> -- not creating ''
               @ relpath (cwd (demo_world demo_sync_text [])) (join (cwd (demo_world demo_sync_text [])) (''t'' @ ''_'' @ ''kdyn'' @ ''_'' @ py_str (demo_env [] [(demo_nml_text, demo_nml)]) (VInt 1))) (cwd (demo_world demo_sync_text []))
               @ '' - parameters are identical to '' @ ''t'']\<rparr>)"
    and "ensemble_paths loc' = ensemble_paths no_locals"
    by blast
  then have "fst (build_variant (demo_env [] [(demo_nml_text, demo_nml)]) True ''t'' ''/h/t'' ''003''
                     ''ice/cice_in.nml'' ''dynamics_nml'' ''kdyn'' False (VInt 1) no_locals
                     (demo_world demo_sync_text []))
                = Inr (IdenticalToTemplate, loc') \<and> ensemble_paths loc' = []"
    by (simp add: no_locals_def)
  with h1 h2 h3 h4 h5 show ?thesis by blast
qed

text \<open>
  C4 as stated fails when the target directory already exists: the existence check comes
  first, so a value equal to the template's still ends as \<open>AlreadyExists\<close> and its path is
  added to the list.
\<close>

theorem identical_value_existing_directory_counterexample:
  "nml_get demo_nml ''dynamics_nml'' ''kdyn'' = Inr (VInt 1)
   \<and> py_eq (VInt 1) (VInt 1)
   \<and> fst (build_variant (demo_env [] [(demo_nml_text, demo_nml)]) True ''t'' ''/h/t'' ''003''
            ''ice/cice_in.nml'' ''dynamics_nml'' ''kdyn'' False (VInt 1) no_locals
            (demo_world demo_sync_text [([''h'', ''t_kdyn_1''], Dir)]))
       = Inr (AlreadyExists, no_locals\<lparr>ensemble_paths := [''/h/t_kdyn_1'']\<rparr>)"
  by code_simp

section \<open>The two line-prefixed fields\<close>

lemma run_pair: "fst (m w) = r \<Longrightarrow> m w = (r, snd (m w))"
  by (cases "m w") simp



text \<open>
  C1, as amended. When the step that sets the sync directory returns, every line of the
  clone's sync\_data.sh that starts with \<^verbatim>\<open>SYNCDIR=\<close> has become \<^verbatim>\<open>SYNCDIR=\<close> followed by
  the directory name (\<^verbatim>\<open>os.path.dirname\<close>) of the rest of that line joined with the variant's
  basename: the last component of the template's sync directory is replaced by the variant's
  name, not kept. The variable \<^verbatim>\<open>syncdir\<close> holds the destination of the last such line. If
  that destination exists and the variant directory is a directory, the directory is deleted,
  the variant ends as \<open>DiscardedSyncConflict\<close>, and no path is added to the list.
\<close>

theorem sync_destination:
  assumes "set_syncdir exppath expname loc w = (Inr loc1, w1)"
  shows "(\<exists>rf. entry w (join exppath ''sync_data.sh'') = Some (File rf)
            \<and> entry w1 (join exppath ''sync_data.sh'') =
                Some (File (map (\<lambda>line. if startswith line ''SYNCDIR=''
                                         then ''SYNCDIR=''
                                              @ join (dirname (drop (length ''SYNCDIR='') line)) expname
                                              @ ''\<newline>''
                                         else line) rf))
            \<and> syncdir loc1 =
                (case filter (\<lambda>line. startswith line ''SYNCDIR='') rf of
                   [] \<Rightarrow> syncdir loc
                 | xs \<Rightarrow> Some (join (dirname (drop (length ''SYNCDIR='') (last xs))) expname))
            \<and> ensemble_paths loc1 = ensemble_paths loc)
       \<and> (\<forall>sd. syncdir loc1 = Some sd \<and> path_exists w1 sd
                \<and> node_at (fs w1) (key w1 exppath) = Some Dir \<and> key w1 exppath \<noteq> [] \<longrightarrow>
             (\<exists>w2. sync_and_finish env test template templatepath startfrom fname grp name v
                      turningangle exppath relexppath expname loc w
                    = (Inr (DiscardedSyncConflict, loc1), w2)
                  \<and> \<not> path_exists w2 exppath))"
proof (intro conjI allI impI)
  have neq: "key w (join exppath ''sync_data.sh'' @ ''_tmp'') \<noteq> key w (join exppath ''sync_data.sh'')"
    by (rule tmp_key_neq) simp_all
  note rw = rewrite_run [OF neq assms [unfolded set_syncdir_shape]]
  then have "cwd w1 = cwd w" by simp
  then have ke: "key w1 q = key w q" for q by (simp add: key_def)
  from rw show "\<exists>rf. entry w (join exppath ''sync_data.sh'') = Some (File rf)
            \<and> entry w1 (join exppath ''sync_data.sh'') =
                Some (File (map (\<lambda>line. if startswith line ''SYNCDIR=''
                                         then ''SYNCDIR=''
                                              @ join (dirname (drop (length ''SYNCDIR='') line)) expname
                                              @ ''\<newline>''
                                         else line) rf))
            \<and> syncdir loc1 =
                (case filter (\<lambda>line. startswith line ''SYNCDIR='') rf of
                   [] \<Rightarrow> syncdir loc
                 | xs \<Rightarrow> Some (join (dirname (drop (length ''SYNCDIR='') (last xs))) expname))
            \<and> ensemble_paths loc1 = ensemble_paths loc"
    by (auto simp: entry_def ke sync_lines_out sync_lines_syncdir)
next
  fix sd
  assume h: "syncdir loc1 = Some sd \<and> path_exists w1 sd
             \<and> node_at (fs w1) (key w1 exppath) = Some Dir \<and> key w1 exppath \<noteq> []"
  let ?w1 = "w1\<lparr>stdout := stdout w1 @ ['' *** deleting '' @ relexppath @ '' - SYNCDIR '' @ sd
                                         @ '' already exists'']\<rparr>"
  from h have "node_at (fs ?w1) (key ?w1 exppath) = Some Dir" "key ?w1 exppath \<noteq> []"
    by simp_all
  from rmtree_dir [OF this] obtain w2 where rm: "rmtree exppath ?w1 = (Inr (), w2)"
    by blast
  from rmtree_gone [OF rm] have gone: "\<not> path_exists w2 exppath" .
  from assms h rm have
    "sync_and_finish env test template templatepath startfrom fname grp name v
       turningangle exppath relexppath expname loc w
     = (Inr (DiscardedSyncConflict, loc1), w2)"
    by (simp add: sync_and_finish_def andthen_def exists_def print_def ret_def)
  with gone show "\<exists>w2. sync_and_finish env test template templatepath startfrom fname grp name v
                      turningangle exppath relexppath expname loc w
                    = (Inr (DiscardedSyncConflict, loc1), w2)
                  \<and> \<not> path_exists w2 exppath"
    by blast
qed

theorem sync_destination_witness:
  "fst (set_syncdir ''/h/e'' ''e'' no_locals
          (clone_world [''SYNCDIR=/g/data/sync/t\<newline>''] [([''g'', ''data'', ''sync'', ''e''], Dir)]))
     = Inr (no_locals\<lparr>syncdir := Some ''/g/data/sync/e''\<rparr>)
   \<and> fst (sync_and_finish (demo_env [] []) True ''t'' ''/h/t'' ''rest'' ''ice/cice_in.nml''
            ''dynamics_nml'' ''kdyn'' (VInt 2) False ''/h/e'' ''e'' ''e'' no_locals
            (clone_world [''SYNCDIR=/g/data/sync/t\<newline>''] [([''g'', ''data'', ''sync'', ''e''], Dir)]))
     = Inr (DiscardedSyncConflict, no_locals\<lparr>syncdir := Some ''/g/data/sync/e''\<rparr>)
   \<and> \<not> path_exists
        (snd (sync_and_finish (demo_env [] []) True ''t'' ''/h/t'' ''rest'' ''ice/cice_in.nml''
                ''dynamics_nml'' ''kdyn'' (VInt 2) False ''/h/e'' ''e'' ''e'' no_locals
                (clone_world [''SYNCDIR=/g/data/sync/t\<newline>''] [([''g'', ''data'', ''sync'', ''e''], Dir)])))
        ''/h/e''"
proof -
  let ?w = "clone_world [''SYNCDIR=/g/data/sync/t\<newline>''] [([''g'', ''data'', ''sync'', ''e''], Dir)]"
  let ?m = "set_syncdir ''/h/e'' ''e'' no_locals"
  let ?l1 = "no_locals\<lparr>syncdir := Some ''/g/data/sync/e''\<rparr>"
  have f: "fst (?m ?w) = Inr ?l1" by code_simp
  then have run: "?m ?w = (Inr ?l1, snd (?m ?w))" by (rule run_pair)
  have h: "syncdir ?l1 = Some ''/g/data/sync/e'' \<and> path_exists (snd (?m ?w)) ''/g/data/sync/e''
           \<and> node_at (fs (snd (?m ?w))) (key (snd (?m ?w)) ''/h/e'') = Some Dir
           \<and> key (snd (?m ?w)) ''/h/e'' \<noteq> []"
    by code_simp
  from sync_destination [OF run, THEN conjunct2, rule_format, OF h,
      of "demo_env [] []" True "''t''" "''/h/t''" "''rest''" "''ice/cice_in.nml''"
         "''dynamics_nml''" "''kdyn''" "VInt 2" False "''e''"]
  obtain w2 where
    "sync_and_finish (demo_env [] []) True ''t'' ''/h/t'' ''rest'' ''ice/cice_in.nml''
        ''dynamics_nml'' ''kdyn'' (VInt 2) False ''/h/e'' ''e'' ''e'' no_locals ?w
      = (Inr (DiscardedSyncConflict, ?l1), w2)"
    and "\<not> path_exists w2 ''/h/e''"
    by blast
  with f show ?thesis by simp
qed

text \<open>
  C1 as stated fails: with \<^verbatim>\<open>SYNCDIR=/g/data/sync/t\<close> in the template and a variant named
  \<^verbatim>\<open>e\<close>, the new destination is \<^verbatim>\<open>/g/data/sync/e\<close>, not \<^verbatim>\<open>/g/data/sync/t/e\<close>.
\<close>

theorem sync_destination_counterexample:
  "fst (set_syncdir ''/h/e'' ''e'' no_locals (clone_world [''SYNCDIR=/g/data/sync/t\<newline>''] []))
     = Inr (no_locals\<lparr>syncdir := Some ''/g/data/sync/e''\<rparr>)
   \<and> entry (snd (set_syncdir ''/h/e'' ''e'' no_locals (clone_world [''SYNCDIR=/g/data/sync/t\<newline>''] [])))
        ''/h/e/sync_data.sh''
     = Some (File [''SYNCDIR=/g/data/sync/e\<newline>''])
   \<and> join ''/g/data/sync/t'' ''e'' = ''/g/data/sync/t/e''
   \<and> ''/g/data/sync/e'' \<noteq> join ''/g/data/sync/t'' ''e''"
  by code_simp

text \<open>
  C9. When no earlier variant has assigned \<^verbatim>\<open>syncdir\<close>, the clone's sync\_data.sh has no
  line starting with \<^verbatim>\<open>SYNCDIR=\<close>, the variant directory is there and the temporary file is
  not, the step rewrites the file unchanged and then fails with the unbound-variable error
  on \<^verbatim>\<open>syncdir\<close>; the variant directory is still on disk afterwards.
\<close>

theorem missing_syncdir_line:
  assumes "syncdir loc = None"
    and "entry w (join exppath ''sync_data.sh'') = Some (File rf)"
    and "\<forall>line \<in> set rf. \<not> startswith line ''SYNCDIR=''"
    and "has_dir (key w exppath) w"
    and "node_at (fs w) (key w (join exppath ''sync_data.sh'' @ ''_tmp'')) = None"
  shows "\<exists>w'. sync_and_finish env test template templatepath startfrom fname grp name v
                 turningangle exppath relexppath expname loc w
               = (Inl (UnboundLocalError ''syncdir''), w')
             \<and> path_exists w' exppath
             \<and> entry w' (join exppath ''sync_data.sh'') = Some (File rf)"
proof -
  let ?K = "key w exppath"
  let ?p = "join exppath ''sync_data.sh''"
  let ?t = "join exppath ''sync_data.sh'' @ ''_tmp''"
  have k: "key w ?p = ?K @ [''sync_data.sh'']"
    by (rule key_join) simp_all
  have kt: "key w ?t = ?K @ [''sync_data.sh_tmp'']"
    using tmp_key [of "''sync_data.sh''" w exppath] by simp
  let ?w1 = "w\<lparr>fs := put (key w ?t) (File []) (fs w)\<rparr>"
  have s1: "write_lines ?t [] w = (Inr (), ?w1)"
    using assms(4,5) by (intro write_lines_ok) (simp_all add: kt has_dir_dir_at)
  have d1: "has_dir ?K ?w1"
    using assms(4) by (intro has_dir_put) (simp_all add: kt)
  have "map_of (fs ?w1) (key ?w1 ?p) = Some (File rf)"
    using assms(2) by (simp add: entry_def map_of_put k kt)
  then have s2: "read_lines ?p ?w1 = (Inr rf, ?w1)"
    by (rule read_lines_file)
  have sl: "sync_lines expname rf (syncdir loc) = (rf, None)"
    using assms(1,3) by (simp add: sync_lines_none)
  let ?w2 = "?w1\<lparr>fs := put (key w ?t) (File rf) (fs ?w1)\<rparr>"
  have da1: "dir_at (fs ?w1) (butlast (key ?w1 ?t))"
    using has_dir_dir_at [OF d1] by (simp add: kt)
  have "write_lines ?t rf ?w1 = (Inr (), ?w1\<lparr>fs := put (key ?w1 ?t) (File rf) (fs ?w1)\<rparr>)"
    by (rule write_lines_ok) (simp_all add: map_of_put da1 [simplified])
  then have s3: "write_lines ?t rf ?w1 = (Inr (), ?w2)" by simp
  have d2: "has_dir ?K ?w2"
    using d1 by (simp add: has_dir_def map_of_put kt)
  let ?w3 = "?w2\<lparr>fs := put (key w ?p) (File rf) (filter (\<lambda>(q, m). q \<noteq> key w ?t) (fs ?w2))\<rparr>"
  have p2: "map_of (fs ?w2) (key ?w2 ?p) = Some (File rf)"
    using assms(2) by (simp add: entry_def map_of_put k kt)
  have "os_rename ?t ?p ?w2 =
          (Inr (), ?w2\<lparr>fs := put (key ?w2 ?p) (File rf)
                                (filter (\<lambda>(q, m). q \<noteq> key ?w2 ?t) (fs ?w2))\<rparr>)"
  proof (rule os_rename_file_ok)
    show "map_of (fs ?w2) (key ?w2 ?t) = Some (File rf)"
      by (simp add: map_of_put)
    show "node_at (fs ?w2) (key ?w2 ?p) \<noteq> Some Dir"
      using node_at_entry [OF p2] by simp
    show "dir_at (fs ?w2) (butlast (key ?w2 ?p))"
      using has_dir_dir_at [OF d2] by (simp add: k)
  qed
  then have s4: "os_rename ?t ?p ?w2 = (Inr (), ?w3)" by simp
  have d3: "has_dir ?K ?w3"
    using d2 by (simp add: has_dir_def map_of_put map_of_del k kt)
  have run: "set_syncdir exppath expname loc w = (Inr (loc\<lparr>syncdir := None\<rparr>), ?w3)"
    unfolding set_syncdir_def Let_def
    by (simp add: andthen_def s1 [simplified] s2 [simplified] sl s3 [simplified] s4 [simplified]
                  ret_def)
  have fin: "sync_and_finish env test template templatepath startfrom fname grp name v
               turningangle exppath relexppath expname loc w
             = (Inl (UnboundLocalError ''syncdir''), ?w3)"
    unfolding sync_and_finish_def by (simp add: andthen_def run raise_def)
  have "key ?w3 exppath = ?K" by simp
  with d3 have ex: "path_exists ?w3 exppath"
    using has_dir_exists [of ?w3 exppath] by simp
  have "entry ?w3 ?p = Some (File rf)"
    by (simp add: entry_def map_of_put)
  with fin ex show ?thesis by blast
qed

theorem missing_syncdir_line_witness:
  "syncdir no_locals = None
   \<and> entry (clone_world [''#!/bin/bash\<newline>'', ''rsync\<newline>''] []) (join ''/h/e'' ''sync_data.sh'')
       = Some (File [''#!/bin/bash\<newline>'', ''rsync\<newline>''])
   \<and> \<not> startswith ''#!/bin/bash\<newline>'' ''SYNCDIR='' \<and> \<not> startswith ''rsync\<newline>'' ''SYNCDIR=''
   \<and> has_dir (key (clone_world [''#!/bin/bash\<newline>'', ''rsync\<newline>''] []) ''/h/e'')
        (clone_world [''#!/bin/bash\<newline>'', ''rsync\<newline>''] [])
   \<and> fst (sync_and_finish (demo_env [] []) True ''t'' ''/h/t'' ''rest'' ''ice/cice_in.nml''
            ''dynamics_nml'' ''kdyn'' (VInt 2) False ''/h/e'' ''e'' ''e'' no_locals
            (clone_world [''#!/bin/bash\<newline>'', ''rsync\<newline>''] []))
       = Inl (UnboundLocalError ''syncdir'')
   \<and> path_exists
        (snd (sync_and_finish (demo_env [] []) True ''t'' ''/h/t'' ''rest'' ''ice/cice_in.nml''
                ''dynamics_nml'' ''kdyn'' (VInt 2) False ''/h/e'' ''e'' ''e'' no_locals
                (clone_world [''#!/bin/bash\<newline>'', ''rsync\<newline>''] [])))
        ''/h/e''"
proof -
  let ?w = "clone_world [''#!/bin/bash\<newline>'', ''rsync\<newline>''] []"
  have h1: "syncdir no_locals = None" by code_simp
  have h2: "entry ?w (join ''/h/e'' ''sync_data.sh'') = Some (File [''#!/bin/bash\<newline>'', ''rsync\<newline>''])"
    by code_simp
  have h3: "\<forall>line \<in> set [''#!/bin/bash\<newline>'', ''rsync\<newline>'']. \<not> startswith line ''SYNCDIR=''"
    by code_simp
  have h4: "has_dir (key ?w ''/h/e'') ?w" by code_simp
  have h5: "node_at (fs ?w) (key ?w (join ''/h/e'' ''sync_data.sh'' @ ''_tmp'')) = None"
    by code_simp
  from missing_syncdir_line [OF h1 h2 h3 h4 h5, of "demo_env [] []" True "''t''" "''/h/t''"
      "''rest''" "''ice/cice_in.nml''" "''dynamics_nml''" "''kdyn''" "VInt 2" False "''e''" "''e''"]
  obtain w' where
    "sync_and_finish (demo_env [] []) True ''t'' ''/h/t'' ''rest'' ''ice/cice_in.nml''
        ''dynamics_nml'' ''kdyn'' (VInt 2) False ''/h/e'' ''e'' ''e'' no_locals ?w
      = (Inl (UnboundLocalError ''syncdir''), w')"
    and "path_exists w' ''/h/e''"
    by blast
  then have "fst (sync_and_finish (demo_env [] []) True ''t'' ''/h/t'' ''rest'' ''ice/cice_in.nml''
            ''dynamics_nml'' ''kdyn'' (VInt 2) False ''/h/e'' ''e'' ''e'' no_locals ?w)
       = Inl (UnboundLocalError ''syncdir'')"
    and "path_exists
        (snd (sync_and_finish (demo_env [] []) True ''t'' ''/h/t'' ''rest'' ''ice/cice_in.nml''
                ''dynamics_nml'' ''kdyn'' (VInt 2) False ''/h/e'' ''e'' ''e'' no_locals ?w))
        ''/h/e''"
    by simp_all
  moreover have "\<not> startswith ''#!/bin/bash\<newline>'' ''SYNCDIR=''" "\<not> startswith ''rsync\<newline>'' ''SYNCDIR=''"
    using h3 by simp_all
  ultimately show ?thesis using h1 h2 h4 by blast
qed

section \<open>Patching the namelist\<close>







section \<open>Loading the specification\<close>




section \<open>Outcomes and the variant directory\<close>

text \<open>Creating an entry keeps the directories that were there.\<close>

lemma follow_put:
  assumes "node_at es k \<noteq> Some Dir" and "\<forall>t. map_of es k \<noteq> Some (Link t)"
  shows "follow m es k0 = Some T \<Longrightarrow> node_at es T = Some Dir \<Longrightarrow> follow m (put k n es) k0 = Some T"
proof (induction m arbitrary: k0)
  case 0
  then show ?case by simp
next
  case (Suc m)
  show ?case
  proof (cases "k0 = k")
    case True
    with assms(2) have "follow (Suc m) es k0 = Some k0"
      by (auto split: option.splits node.splits)
    with Suc.prems True assms(1) show ?thesis by simp
  next
    case False
    then have same: "map_of (put k n es) k0 = map_of es k0"
      by (simp add: map_of_put)
    show ?thesis
    proof (cases "map_of es k0")
      case None
      with same Suc.prems show ?thesis by simp
    next
      case (Some nd)
      show ?thesis
      proof (cases nd)
        case (Link t)
        with Some same Suc.prems Suc.IH [of "comps (join (render (butlast k0)) t)"]
        show ?thesis by simp
      qed (use Some same Suc.prems in simp_all)
    qed
  qed
qed

lemma node_at_put_dir:
  assumes "node_at es T = Some Dir" and "T \<noteq> k"
  shows "node_at (put k n es) T = Some Dir"
proof (cases "map_of es T")
  case (Some nd)
  with assms show ?thesis by (simp add: node_at_def map_of_put)
next
  case None
  with assms(1) have "T = [] \<or> list_ex (\<lambda>(q, n). strict_prefix T q) es"
    by (simp add: node_at_def split: if_splits)
  then have "T = [] \<or> list_ex (\<lambda>(q, n). strict_prefix T q) (put k n es)"
  proof
    assume "list_ex (\<lambda>(q, n). strict_prefix T q) es"
    then obtain q m where qm: "(q, m) \<in> set es" "strict_prefix T q"
      by (auto simp: list_ex_iff)
    show ?thesis
    proof (cases "q = k")
      case True
      with qm show ?thesis by (simp add: put_def)
    next
      case False
      with qm have "(q, m) \<in> set (put k n es)" by (simp add: put_def)
      with qm(2) show ?thesis by (auto simp: list_ex_iff)
    qed
  qed simp
  with None assms(2) show ?thesis by (simp add: node_at_def map_of_put)
qed

lemma dir_at_put:
  assumes "dir_at es k0" and "node_at es k \<noteq> Some Dir" and "\<forall>t. map_of es k \<noteq> Some (Link t)"
  shows "dir_at (put k n es) k0"
proof -
  from assms(1) obtain T where f: "follow 40 es k0 = Some T" and d: "node_at es T = Some Dir"
    by (auto simp: dir_at_def resolve_def split: option.splits)
  from d assms(2) have "T \<noteq> k" by auto
  from follow_put [OF assms(2,3) f d] node_at_put_dir [OF d this]
  show ?thesis by (simp add: dir_at_def resolve_def)
qed

lemma write_lines_parent:
  assumes "write_lines p ls w = (Inr x, w')"
  shows "dir_at (fs w') (butlast (key w p))" and "cwd w' = cwd w"
proof -
  let ?k = "key w p"
  from assms have w': "w' = w\<lparr>fs := put ?k (File ls) (fs w)\<rparr>"
    and nd: "node_at (fs w) ?k \<noteq> Some Dir" and nl: "\<forall>t. node_at (fs w) ?k \<noteq> Some (Link t)"
    and par: "dir_at (fs w) (butlast ?k)"
    by (auto simp: write_lines_def Let_def split: option.splits node.splits if_splits)
  from nl have "\<forall>t. map_of (fs w) ?k \<noteq> Some (Link t)"
    by (simp add: node_at_Link)
  from dir_at_put [OF par nd this] w' show "dir_at (fs w') (butlast (key w p))" by simp
  from w' show "cwd w' = cwd w" by simp
qed

lemma dir_exists: "dir_at (fs w) (key w p) \<Longrightarrow> path_exists w p"
  by (auto simp: dir_at_def path_exists_def split: option.splits)

lemma path_exists_stdout [simp]: "path_exists (w\<lparr>stdout := s\<rparr>) p = path_exists w p"
  by (simp add: path_exists_def split: option.splits)

text \<open>Triples that say nothing about most steps, and something about the last one.\<close>

lemma hoare_top: "hoare P m (\<lambda>x w. True) anyhow"
  by (rule hoareI) simp_all

lemma write_child_dir:
  assumes "n \<noteq> []" "CHR ''/'' \<notin> set n" "n \<noteq> ''.''" "n \<noteq> ''..''"
  shows "hoare P (write_lines (join e n) ls) (\<lambda>u w. path_exists w e) anyhow"
proof (rule hoareI)
  fix w x w' assume "P w" and run: "write_lines (join e n) ls w = (Inr x, w')"
  from write_lines_parent [OF run] key_join [OF assms, of w e]
  have d: "dir_at (fs w') (key w e)" and c: "cwd w' = cwd w" by simp_all
  from c have "key w' e = key w e" by (simp add: key_def)
  with d show "path_exists w' e" by (simp add: dir_exists)
qed simp

lemma update_metadata_dir:
  "hoare (\<lambda>w. True)
     (update_metadata env exppath templatepath startfrom fname grp name v turningangle loc)
     (\<lambda>u w. path_exists w exppath) anyhow"
  unfolding update_metadata_def Let_def
  by (intro hoare_andthen [where R = "\<lambda>x w. True", OF hoare_top] write_child_dir) simp_all

lemma git_rm_each_keeps:
  assumes "\<forall>f w0. I w0 \<longrightarrow> I (snd (git_rm env exppath f w0))"
  shows "hoare I (git_rm_each env exppath ps) (\<lambda>u. I) anyhow"
proof (induction ps)
  case Nil
  show ?case by (simp add: hoare_ret)
next
  case (Cons f ps)
  have one: "hoare I (git_rm env exppath (basename f)) (\<lambda>u. I) anyhow"
  proof (rule hoareI)
    fix w x w' assume "I w" and "git_rm env exppath (basename f) w = (Inr x, w')"
    with assms [rule_format, of w "basename f"] show "I w'" by simp
  qed simp
  show ?case
    by (simp only: git_rm_each.simps) (rule hoare_andthen [OF one], rule Cons.IH)
qed

lemma remove_run_summaries_keeps:
  assumes "\<forall>f w0. I w0 \<longrightarrow> I (snd (git_rm env exppath f w0))"
  shows "hoare I (remove_run_summaries env exppath) (\<lambda>u. I) anyhow"
proof (rule hoareI)
  fix w x w' assume "I w" and "remove_run_summaries env exppath w = (Inr x, w')"
  then show "I w'"
    using hoare_Inr [OF git_rm_each_keeps [OF assms]] by (simp add: remove_run_summaries_def)
qed simp

lemma commit_keeps:
  assumes "\<forall>m w0. I w0 \<longrightarrow> I (snd (git_commit_all env exppath m w0))"
  shows "hoare I (git_commit_all env exppath msg) (\<lambda>u. I) anyhow"
proof (rule hoareI)
  fix w x w' assume "I w" and "git_commit_all env exppath msg w = (Inr x, w')"
  with assms [rule_format, of w msg] show "I w'" by simp
qed simp

text \<open>Giving a variant up: the message, then \<^verbatim>\<open>shutil.rmtree(exppath)\<close>.\<close>

lemma discard_gone:
  "hoare P (andthen (print s) (\<lambda>_. andthen (rmtree exppath) (\<lambda>_. ret r)))
     (\<lambda>x w. x = r \<and> \<not> path_exists w exppath) anyhow"
proof (rule hoareI)
  fix w x w' assume "P w"
    and run: "andthen (print s) (\<lambda>_. andthen (rmtree exppath) (\<lambda>_. ret r)) w = (Inr x, w')"
  from run obtain u w1 where rm: "rmtree exppath (w\<lparr>stdout := stdout w @ [s]\<rparr>) = (Inr u, w1)"
      and r: "ret r w1 = (Inr x, w')"
    unfolding andthen_print by (rule andthen_Inr_E)
  from r have "x = r" "w' = w1" by (simp_all add: ret_def)
  with rmtree_gone [OF rm] show "x = r \<and> \<not> path_exists w' exppath" by simp
qed simp

lemma settled_stdout [simp]: "settled exppath r (w\<lparr>stdout := s\<rparr>) = settled exppath r w"
  by (simp add: settled_def)

lemma discard_settled:
  assumes "out \<noteq> Committed" "out \<noteq> AlreadyExists"
  shows "hoare P (andthen (print s) (\<lambda>_. andthen (rmtree exppath) (\<lambda>_. ret (out, l))))
           (settled exppath) anyhow"
  by (rule hoare_post [OF discard_gone]) (use assms in \<open>simp add: settled_def\<close>)

lemma finish_variant_settled:
  assumes rm: "\<forall>f w0. path_exists w0 exppath \<longrightarrow> path_exists (snd (git_rm env exppath f w0)) exppath"
    and ci: "\<forall>m w0. path_exists w0 exppath \<longrightarrow> path_exists (snd (git_commit_all env exppath m w0)) exppath"
  shows "hoare (\<lambda>w. True)
           (finish_variant env test template templatepath startfrom fname grp name v turningangle
              exppath relexppath expname loc)
           (settled exppath) anyhow"
  unfolding finish_variant_def
proof (rule hoare_andthen [where R = "\<lambda>r w. fst r \<longrightarrow> \<not> path_exists w exppath"], goal_cases)
  case 1
  show ?case
  proof (rule hoare_cond)
    show "hoare (\<lambda>w. True)
            (andthen (prepare_work env test template templatepath exppath expname) (\<lambda>workpath.
               let archivepath = replace ''/work/'' ''/archive/'' workpath in
               (\<lambda>w. if glob w (join archivepath ''output*'') @ glob w (join archivepath ''restart*'') \<noteq> []
                    then andthen (print ('' *** deleting '' @ relexppath @ '' - archive '' @ archivepath
                                          @ '' already contains restarts and/or outputs''))
                           (\<lambda>_. andthen (rmtree exppath) (\<lambda>_. ret (True, loc))) w
                    else andthen (link_restart template exppath startfrom archivepath loc)
                           (\<lambda>loc. ret (False, loc)) w)))
            (\<lambda>r w. fst r \<longrightarrow> \<not> path_exists w exppath) anyhow"
    proof (rule hoare_andthen [where R = "\<lambda>x w. True", OF hoare_top], unfold Let_def, rule hoareI)
      fix workpath w x w'
      assume run: "(if glob w (join (replace ''/work/'' ''/archive/'' workpath) ''output*'')
                       @ glob w (join (replace ''/work/'' ''/archive/'' workpath) ''restart*'') \<noteq> []
                    then andthen (print ('' *** deleting '' @ relexppath @ '' - archive ''
                                          @ replace ''/work/'' ''/archive/'' workpath
                                          @ '' already contains restarts and/or outputs''))
                           (\<lambda>_. andthen (rmtree exppath) (\<lambda>_. ret (True, loc))) w
                    else andthen (link_restart template exppath startfrom
                                    (replace ''/work/'' ''/archive/'' workpath) loc)
                           (\<lambda>loc. ret (False, loc)) w) = (Inr x, w')"
      show "fst x \<longrightarrow> \<not> path_exists w' exppath"
      proof (cases "glob w (join (replace ''/work/'' ''/archive/'' workpath) ''output*'')
                       @ glob w (join (replace ''/work/'' ''/archive/'' workpath) ''restart*'') \<noteq> []")
        case True
        with run have "andthen (print ('' *** deleting '' @ relexppath @ '' - archive ''
                                          @ replace ''/work/'' ''/archive/'' workpath
                                          @ '' already contains restarts and/or outputs''))
                           (\<lambda>_. andthen (rmtree exppath) (\<lambda>_. ret (True, loc))) w = (Inr x, w')"
          by simp
        from hoare_Inr [OF discard_gone [where P = "\<lambda>w. True"] TrueI this]
        show ?thesis by simp
      next
        case False
        with run obtain l w1 where "ret (False, l) w1 = (Inr x, w')"
          by (auto elim: andthen_Inr_E)
        then show ?thesis by (auto simp: ret_def)
      qed
    qed simp
  next
    show "hoare (\<lambda>w. True) (ret (False, loc)) (\<lambda>r w. fst r \<longrightarrow> \<not> path_exists w exppath) anyhow"
      by (simp add: hoare_ret)
  qed
next
  case (2 x)
  obtain discarded l where x: "x = (discarded, l)" by (cases x)
  show ?case
  proof (cases discarded)
    case True
    with x show ?thesis
      by (simp add: hoare_ret settled_def)
  next
    case False
    have "hoare (\<lambda>w. fst x \<longrightarrow> \<not> path_exists w exppath)
            (andthen (set_jobname env exppath name v) (\<lambda>_.
             andthen (update_metadata env exppath templatepath startfrom fname grp name v
                        turningangle l) (\<lambda>_.
             andthen (remove_run_summaries env exppath) (\<lambda>_.
             andthen (git_commit_all env exppath (''set up '' @ expname)) (\<lambda>_.
             ret (Committed, l\<lparr>ensemble_paths := ensemble_paths l @ [exppath]\<rparr>))))))
            (settled exppath) anyhow"
      apply (rule hoare_andthen [where R = "\<lambda>x w. True", OF hoare_top])
      apply (rule hoare_andthen [OF update_metadata_dir])
      apply (rule hoare_andthen [OF remove_run_summaries_keeps [where I = "\<lambda>w. path_exists w exppath", OF rm]])
      apply (rule hoare_andthen [OF commit_keeps [where I = "\<lambda>w. path_exists w exppath", OF ci]])
      apply (rule hoare_ret)
      apply (simp add: settled_def)
      done
    with x False show ?thesis by simp
  qed
qed

lemma sync_and_finish_settled:
  assumes rm: "\<forall>f w0. path_exists w0 exppath \<longrightarrow> path_exists (snd (git_rm env exppath f w0)) exppath"
    and ci: "\<forall>m w0. path_exists w0 exppath \<longrightarrow> path_exists (snd (git_commit_all env exppath m w0)) exppath"
  shows "hoare (\<lambda>w. True)
           (sync_and_finish env test template templatepath startfrom fname grp name v turningangle
              exppath relexppath expname loc)
           (settled exppath) anyhow"
  unfolding sync_and_finish_def
proof (rule hoare_andthen [where R = "\<lambda>x w. True", OF hoare_top])
  fix l
  show "hoare (\<lambda>w. True)
          (case syncdir l of
             None \<Rightarrow> raise (UnboundLocalError ''syncdir'')
           | Some sd \<Rightarrow>
               andthen (exists sd) (\<lambda>e.
               if e then
                 andthen (print ('' *** deleting '' @ relexppath @ '' - SYNCDIR '' @ sd
                                  @ '' already exists'')) (\<lambda>_.
                 andthen (rmtree exppath) (\<lambda>_.
                 ret (DiscardedSyncConflict, l)))
               else
                 finish_variant env test template templatepath startfrom fname grp name v
                   turningangle exppath relexppath expname l))
          (settled exppath) anyhow"
  proof (cases "syncdir l")
    case None
    then show ?thesis by (simp add: hoare_raise)
  next
    case (Some sd)
    show ?thesis
      unfolding Some option.case
      by (rule hoare_andthen [where R = "\<lambda>x w. True", OF hoare_top], rule hoare_cond)
         (simp_all add: discard_settled finish_variant_settled [OF rm ci])
  qed
qed

lemma create_variant_settled:
  assumes rm: "\<forall>f w0. path_exists w0 exppath \<longrightarrow> path_exists (snd (git_rm env exppath f w0)) exppath"
    and ci: "\<forall>m w0. path_exists w0 exppath \<longrightarrow> path_exists (snd (git_commit_all env exppath m w0)) exppath"
  shows "hoare (\<lambda>w. True)
           (create_variant env test template templatepath startfrom fname grp name v turningangle
              exppath relexppath expname loc)
           (settled exppath) anyhow"
  unfolding create_variant_def
  apply (rule hoare_andthen [where R = "\<lambda>x w. True", OF hoare_top])
  apply (rule hoare_andthen [where R = "\<lambda>x w. True", OF hoare_top])
  apply (rule hoare_andthen [where R = "\<lambda>x w. True", OF hoare_top])
  apply (rule hoare_cond)
   apply (rule discard_settled; simp)
  apply (rule sync_and_finish_settled [OF rm ci])
  done

lemma check_identical_same:
  "check_identical env templatepath fname grp name v turningangle loc w = (r, w') \<Longrightarrow> w' = w"
proof -
  have rd: "hoare (\<lambda>w. w = w0) (read_lines p) (\<lambda>x w. w = w0) (\<lambda>e w. w = w0)" for w0 p
    by (rule hoareI) (auto dest: read_lines_same)
  have "hoare (\<lambda>w. w = w0) (check_identical env templatepath fname grp name v turningangle loc)
          (\<lambda>x w. w = w0) (\<lambda>e w. w = w0)" for w0
    unfolding check_identical_def Let_def
    by (intro hoare_andthen [where R = "\<lambda>x w. w = w0"] hoare_cond hoare_lift hoare_ret rd) simp_all
  from hoare_Inr [OF this [of w], of w] hoare_Inl [OF this [of w], of w]
  show "check_identical env templatepath fname grp name v turningangle loc w = (r, w') \<Longrightarrow> w' = w"
    by (cases r) auto
qed

lemma andthen_getcwd: "andthen getcwd f w = f (cwd w) w"
  by (simp add: andthen_def getcwd_def)

lemma andthen_exists: "andthen (exists p) f w = f (path_exists w p) w"
  by (simp add: andthen_def exists_def)

text \<open>The stand-in repository keeps the work tree's directory when it removes or commits.\<close>

lemma demo_rm_keeps:
  "\<forall>f w0. path_exists w0 p \<longrightarrow> path_exists (snd (git_rm (demo_env yt nt) p f w0)) p"
proof (intro allI impI)
  fix f w0 assume ex: "path_exists w0 p"
  let ?kf = "key w0 (join p f)"
  show "path_exists (snd (git_rm (demo_env yt nt) p f w0)) p"
  proof (cases "fst (git_rm (demo_env yt nt) p f w0)")
    case (Inl e)
    then have "snd (git_rm (demo_env yt nt) p f w0) = w0"
      by (auto simp: demo_env_def demo_git_rm_def split: option.splits if_splits)
    with ex show ?thesis by simp
  next
    case (Inr u)
    then have d: "has_dir (key w0 p) w0" and f: "has_file ?kf w0"
      and w': "snd (git_rm (demo_env yt nt) p f w0) = w0\<lparr>fs := filter (\<lambda>(q, m). q \<noteq> ?kf) (fs w0)\<rparr>"
      by (auto simp: demo_env_def demo_git_rm_def split: option.splits if_splits)
    from d f have "?kf \<noteq> key w0 p"
      by (auto simp: has_dir_def has_file_def)
    from has_dir_del [OF d this] have "has_dir (key w0 p) (w0\<lparr>fs := filter (\<lambda>(q, m). q \<noteq> ?kf) (fs w0)\<rparr>)" .
    then have "path_exists (w0\<lparr>fs := filter (\<lambda>(q, m). q \<noteq> ?kf) (fs w0)\<rparr>) p"
      by (intro has_dir_exists) simp
    with w' show ?thesis by simp
  qed
qed

lemma demo_commit_keeps:
  "\<forall>m w0. path_exists w0 p \<longrightarrow> path_exists (snd (git_commit_all (demo_env yt nt) p m w0)) p"
  by (auto simp: demo_env_def demo_git_commit_all_def path_exists_def key_def split: option.splits)

text \<open>
  C7, as amended. A build that returns ends in exactly one outcome, and the variant directory
  is there afterwards exactly when that outcome is \<open>Committed\<close> or \<open>AlreadyExists\<close>: after
  \<open>IdenticalToTemplate\<close> it never was, and after each of the three \<open>Discarded\<close> outcomes
  (also when the archive already holds outputs or restarts) \<^verbatim>\<open>shutil.rmtree\<close> has removed
  it. The repository is taken to keep its work tree's directory when it removes a run
  summary and when it commits. A build that raises has no outcome; see the counterexample.
\<close>

theorem terminal_state_and_directory:
  assumes run: "build_variant env test template templatepath startfrom fname grp name
                  turningangle v loc w = (Inr (out, loc'), w')"
    and e: "exppath = join (cwd w) (template @ ''_'' @ name @ ''_'' @ py_str env v)"
    and rm: "\<forall>f w0. path_exists w0 exppath \<longrightarrow> path_exists (snd (git_rm env exppath f w0)) exppath"
    and ci: "\<forall>m w0. path_exists w0 exppath
                \<longrightarrow> path_exists (snd (git_commit_all env exppath m w0)) exppath"
  shows "path_exists w' exppath \<longleftrightarrow> out = Committed \<or> out = AlreadyExists"
proof -
  let ?E = "join (cwd w) (template @ ''_'' @ name @ ''_'' @ py_str env v)"
  let ?rel = "relpath (cwd w) ?E (cwd w)"
  note rm' = rm [unfolded e] and ci' = ci [unfolded e]
  have "path_exists w' ?E \<longleftrightarrow> out = Committed \<or> out = AlreadyExists"
  proof (cases "path_exists w ?E")
    case True
    with run have "out = AlreadyExists" and "\<exists>s. w' = w\<lparr>stdout := s\<rparr>"
      by (auto simp: build_variant_def andthen_getcwd andthen_exists andthen_print ret_def Let_def)
    with True show ?thesis by auto
  next
    case False
    from run False
    have "andthen (check_identical env templatepath fname grp name v turningangle loc)
            (\<lambda>(skip, l).
               if skip then
                 andthen (print (''\<newline> -- not creating '' @ ?rel
                                  @ '' - parameters are identical to '' @ template)) (\<lambda>_.
                 ret (IdenticalToTemplate, l))
               else
                 create_variant env test template templatepath startfrom fname grp name v
                   turningangle ?E ?rel (basename ?rel) l) w = (Inr (out, loc'), w')"
      unfolding build_variant_def andthen_getcwd andthen_exists Let_def by (simp only: if_False)
    then obtain x w1
      where chk: "check_identical env templatepath fname grp name v turningangle loc w = (Inr x, w1)"
      and rest: "(case x of (skip, l) \<Rightarrow>
               if skip then
                 andthen (print (''\<newline> -- not creating '' @ ?rel
                                  @ '' - parameters are identical to '' @ template)) (\<lambda>_.
                 ret (IdenticalToTemplate, l))
               else
                 create_variant env test template templatepath startfrom fname grp name v
                   turningangle ?E ?rel (basename ?rel) l) w1 = (Inr (out, loc'), w')"
      by (rule andthen_Inr_E)
    from check_identical_same [OF chk] have w1: "w1 = w" .
    obtain skip l where x: "x = (skip, l)" by (cases x)
    show ?thesis
    proof (cases skip)
      case True
      with rest x w1 have "out = IdenticalToTemplate" and "\<exists>s. w' = w\<lparr>stdout := s\<rparr>"
        by (auto simp: andthen_print ret_def)
      with False show ?thesis by auto
    next
      case no: False
      with rest x have "create_variant env test template templatepath startfrom fname grp name v
                   turningangle ?E ?rel (basename ?rel) l w1 = (Inr (out, loc'), w')"
        by simp
      from hoare_Inr [OF create_variant_settled [OF rm' ci'] TrueI this]
      show ?thesis by (simp add: settled_def)
    qed
  qed
  then show ?thesis by (simp add: e)
qed

theorem terminal_state_and_directory_witness:
  "fst (build_variant (mini_env YNull) True ''t'' ''/h/t'' ''rest'' ''n'' ''g'' ''k'' False (VInt 2)
          no_locals (mini_world mini_files [(''origin'', ''u'')]))
     = Inr (Committed, no_locals\<lparr>ensemble_paths := [''/h/t_k_2''], syncdir := Some ''/s/t_k_2''\<rparr>)
   \<and> path_exists
       (snd (build_variant (mini_env YNull) True ''t'' ''/h/t'' ''rest'' ''n'' ''g'' ''k'' False (VInt 2)
               no_locals (mini_world mini_files [(''origin'', ''u'')])))
       ''/h/t_k_2''"
proof -
  let ?run = "build_variant (mini_env YNull) True ''t'' ''/h/t'' ''rest'' ''n'' ''g'' ''k'' False (VInt 2)
                no_locals (mini_world mini_files [(''origin'', ''u'')])"
  have r: "fst ?run
     = Inr (Committed, no_locals\<lparr>ensemble_paths := [''/h/t_k_2''], syncdir := Some ''/s/t_k_2''\<rparr>)"
    by code_simp
  have e: "''/h/t_k_2'' = join (cwd (mini_world mini_files [(''origin'', ''u'')]))
                            (''t'' @ ''_'' @ ''k'' @ ''_'' @ py_str (mini_env YNull) (VInt 2))"
    by code_simp
  from r have run: "?run = (Inr (Committed, no_locals\<lparr>ensemble_paths := [''/h/t_k_2''],
                                                       syncdir := Some ''/s/t_k_2''\<rparr>), snd ?run)"
    by (rule run_pair)
  have rm: "\<forall>f w0. path_exists w0 ''/h/t_k_2''
              \<longrightarrow> path_exists (snd (git_rm (mini_env YNull) ''/h/t_k_2'' f w0)) ''/h/t_k_2''"
    unfolding mini_env_def by (rule demo_rm_keeps)
  have ci: "\<forall>m w0. path_exists w0 ''/h/t_k_2''
              \<longrightarrow> path_exists (snd (git_commit_all (mini_env YNull) ''/h/t_k_2'' m w0)) ''/h/t_k_2''"
    unfolding mini_env_def by (rule demo_commit_keeps)
  from terminal_state_and_directory [OF run e rm ci]
  have "path_exists (snd ?run) ''/h/t_k_2''"
    by simp
  with r show ?thesis by simp
qed

text \<open>
  C7 as stated fails for a build that raises. The template here has no sync\_data.sh: the
  variant is cloned and patched, reading sync\_data.sh raises, and the attempt ends with no
  outcome and the variant directory on disk.
\<close>

theorem raised_build_counterexample:
  "\<not> path_exists (mini_world [(''n'', [''k=1\<newline>''])] [(''origin'', ''u'')]) ''/h/t_k_2''
   \<and> (case build_variant (mini_env YNull) True ''t'' ''/h/t'' ''rest'' ''n'' ''g'' ''k'' False (VInt 2)
             no_locals (mini_world [(''n'', [''k=1\<newline>''])] [(''origin'', ''u'')]) of
        (r, w') \<Rightarrow> r = Inl (FileNotFoundError ''/h/t_k_2/sync_data.sh'')
                   \<and> path_exists w' ''/h/t_k_2'')"
  by code_simp

end
